theory Spec2Isabelle
  imports Complex_Main
begin

section \<open>Training and evaluation machinery of the coffee-leaf classifiers\<close>

text \<open>
  A shallow embedding of \<^verbatim>\<open>src/classifier/classifiers-backup.py\<close>. Python and tensor
  floats are read as real numbers: what is proved is the arithmetic the code writes down,
  not its rounding. Python integers are \<open>int\<close>, list positions and sizes are \<open>nat\<close>.
  Tensors, the network, the criterion objects and the data loader are collaborators of the
  code; the model receives what they return.
\<close>

subsection \<open>Outcomes other than a value\<close>

text \<open>
  The first four are Python exceptions. \<open>NotANumber\<close> is not raised by the code: it
  stands for a float result that is NaN or infinite (numpy and torch divide by zero with a
  warning), which a real number cannot hold.
\<close>

datatype failure = ZeroDivisionError | IndexError | ValueError | TypeError | NotANumber

text \<open>A \<^verbatim>\<open>for\<close> loop whose body may raise: the first failure ends the loop.\<close>

fun for_each :: "('a \<Rightarrow> 's \<Rightarrow> failure + 's) \<Rightarrow> 'a list \<Rightarrow> 's \<Rightarrow> failure + 's" where
  "for_each body [] st = Inr st"
| "for_each body (x # xs) st =
     (case body x st of Inl e \<Rightarrow> Inl e | Inr st' \<Rightarrow> for_each body xs st')"

subsection \<open>\<^verbatim>\<open>eval_metrics\<close> (lines 90-100)\<close>

text \<open>
  \<^verbatim>\<open>sklearn.metrics.accuracy_score(y_true, y_pred)\<close> on two label vectors: the mean of
  the element-wise comparison. Vectors of different lengths raise \<^verbatim>\<open>ValueError\<close>; the mean
  of an empty comparison is NaN.
\<close>

definition accuracy_score :: "int list \<Rightarrow> int list \<Rightarrow> failure + real" where
  "accuracy_score y_true y_pred =
     (if length y_true \<noteq> length y_pred then Inl ValueError
      else if y_true = [] then Inl NotANumber
      else Inr (real (length (filter (\<lambda>(t, p). t = p) (zip y_true y_pred)))
                / real (length y_true)))"

text \<open>
  \<^verbatim>\<open>eval_metrics(metric, y_pred, y_true, y2_true=None, lam=None)\<close>. The result is
  \<^verbatim>\<open>None\<close> for a metric other than \<^verbatim>\<open>'acc'\<close>. In the mixed branch Python evaluates
  \<^verbatim>\<open>accuracy_score(y_true, y_pred)\<close> first, then multiplies by \<^verbatim>\<open>lam\<close> (a
  \<^verbatim>\<open>TypeError\<close> when \<^verbatim>\<open>lam\<close> is \<^verbatim>\<open>None\<close>), then evaluates the second score.
\<close>

definition eval_metrics ::
  "string \<Rightarrow> int list \<Rightarrow> int list \<Rightarrow> int list option \<Rightarrow> real option \<Rightarrow> failure + real option" where
  "eval_metrics metric y_pred y_true y2_true lam =
     (case y2_true of
        None \<Rightarrow>
          (if metric = ''acc'' then
             (case accuracy_score y_true y_pred of Inl e \<Rightarrow> Inl e | Inr a \<Rightarrow> Inr (Some a))
           else Inr None)
      | Some y2 \<Rightarrow>
          (if metric = ''acc'' then
             (case accuracy_score y_true y_pred of
                Inl e \<Rightarrow> Inl e
              | Inr a \<Rightarrow>
                  (case lam of
                     None \<Rightarrow> Inl TypeError
                   | Some l \<Rightarrow>
                       (case accuracy_score y2 y_pred of
                          Inl e \<Rightarrow> Inl e
                        | Inr b \<Rightarrow> Inr (Some (l * a + (1 - l) * b)))))
           else Inr None))"

text \<open>
  The fraction of positions where prediction and label agree, written as the claim words
  it; \<open>accuracy_score\<close> above is compared with it.
\<close>

definition agree_fraction :: "int list \<Rightarrow> int list \<Rightarrow> real" where
  "agree_fraction pred lab =
     real (length (filter (\<lambda>i. pred ! i = lab ! i) [0..<length pred])) / real (length pred)"

subsection \<open>\<^verbatim>\<open>sampler\<close> (lines 53-88)\<close>

text \<open>\<^verbatim>\<open>np.where(flags)[0]\<close>: the positions at which a boolean vector is true.\<close>

definition np_where :: "bool list \<Rightarrow> nat list" where
  "np_where flags = filter (\<lambda>i. flags ! i) [0..<length flags]"

text \<open>\<^verbatim>\<open>samplesWeight[idx] = v\<close>: every listed position receives \<open>v\<close>.\<close>

definition assign_at :: "real list \<Rightarrow> nat list \<Rightarrow> real \<Rightarrow> real list" where
  "assign_at w idx v = fold (\<lambda>i acc. acc[i := v]) idx w"

text \<open>
  The dataset as the sampler reads it: \<open>data\<close> holds, for each row of
  \<^verbatim>\<open>dataset.data\<close>, the disease column \<^verbatim>\<open>data[:,1]\<close> and the severity column
  \<^verbatim>\<open>data[:,-1]\<close>; \<open>samples\<close> holds the class index \<^verbatim>\<open>x[1]\<close> of each entry of
  \<^verbatim>\<open>dataset.samples\<close>.
\<close>

record dataset =
  data :: "(int \<times> int) list"
  samples :: "int list"

definition balance_factor :: nat where
  "balance_factor = 20"

text \<open>\<^verbatim>\<open>[a and b for a, b in zip(dis==d, sev==s)]\<close>\<close>

definition cell_mask :: "int list \<Rightarrow> int list \<Rightarrow> int \<Rightarrow> int \<Rightarrow> bool list" where
  "cell_mask dis sev d s =
     map (\<lambda>(a, b). a \<and> b) (zip (map (\<lambda>x. x = d) dis) (map (\<lambda>x. x = s) sev))"

text \<open>
  The body of the inner loop of the joint case. \<^verbatim>\<open>(targets_sum + balance_factor) / total\<close>
  divides by the Python integer \<^verbatim>\<open>total\<close>: an empty dataset raises.
\<close>

definition joint_cell :: "int list \<Rightarrow> int list \<Rightarrow> nat \<Rightarrow> int \<Rightarrow> int \<Rightarrow> real list \<Rightarrow> failure + real list" where
  "joint_cell dis sev total' d s samplesWeight =
     (let targets_sum = length (filter (\<lambda>b. b) (cell_mask dis sev d s));
          idx = np_where (cell_mask dis sev d s)
      in if total' = 0 then Inl ZeroDivisionError
         else Inr (assign_at samplesWeight idx
                     (1 / ((real targets_sum + real balance_factor) / real total'))))"

text \<open>\<^verbatim>\<open>range(5)\<close>\<close>

definition range5 :: "int list" where
  "range5 = [0, 1, 2, 3, 4]"

definition joint_weights :: "(int \<times> int) list \<Rightarrow> failure + real list" where
  "joint_weights rows =
     (let dis = map fst rows; sev = map snd rows; total' = length dis
      in for_each (\<lambda>d. for_each (\<lambda>s. joint_cell dis sev total' d s) range5) range5
           (replicate total' 0))"

text \<open>\<^verbatim>\<open>np.unique(targets)\<close>: the distinct values, ascending.\<close>

definition np_unique :: "int list \<Rightarrow> int list" where
  "np_unique xs = sort (remdups xs)"

text \<open>The body of the loop of the single-label case.\<close>

definition single_class :: "int list \<Rightarrow> nat \<Rightarrow> int \<Rightarrow> real list \<Rightarrow> failure + real list" where
  "single_class targets total' t samplesWeight =
     (let idx = np_where (map (\<lambda>x. x = t) targets)
      in if total' = 0 \<or> length idx = 0 then Inl ZeroDivisionError
         else Inr (assign_at samplesWeight idx (1 / (real (length idx) / real total'))))"

definition single_weights :: "int list \<Rightarrow> failure + real list" where
  "single_weights targets =
     (let total' = length targets
      in for_each (single_class targets total') (np_unique targets) (replicate total' 0))"

text \<open>
  \<^verbatim>\<open>samplesWeight / sum(samplesWeight)\<close>. An empty vector stays empty; a non-empty vector
  with sum zero becomes NaN or infinite throughout.
\<close>

definition normalize_weights :: "real list \<Rightarrow> failure + real list" where
  "normalize_weights samplesWeight =
     (let s = sum_list samplesWeight
      in if samplesWeight \<noteq> [] \<and> s = 0 then Inl NotANumber
         else Inr (map (\<lambda>x. x / s) samplesWeight))"

text \<open>
  The weight vector \<^verbatim>\<open>sampler\<close> hands to \<^verbatim>\<open>WeightedRandomSampler\<close>;
  \<open>select_classifier\<close> is \<^verbatim>\<open>opt.select_classifier\<close>.
\<close>

definition sampler :: "dataset \<Rightarrow> int \<Rightarrow> failure + real list" where
  "sampler dataset select_classifier =
     (case (if select_classifier = 1 then joint_weights (data dataset)
            else single_weights (samples dataset)) of
        Inl e \<Rightarrow> Inl e
      | Inr samplesWeight \<Rightarrow> normalize_weights samplesWeight)"

text \<open>The number of examples of the dataset that carry the same label as example \<open>i\<close>.\<close>

definition occurrences :: "'a list \<Rightarrow> nat \<Rightarrow> nat" where
  "occurrences labels i = count_list labels (labels ! i)"

definition in_grid :: "int \<times> int \<Rightarrow> bool" where
  "in_grid c = (0 \<le> fst c \<and> fst c \<le> 4 \<and> 0 \<le> snd c \<and> snd c \<le> 4)"

subsection \<open>\<^verbatim>\<open>adjust_learning_rate\<close> (lines 102-113)\<close>

text \<open>Python 3 \<^verbatim>\<open>round(x)\<close> with one argument: to the nearest integer, a tie to the even one.\<close>

definition py_round :: "real \<Rightarrow> int" where
  "py_round x =
     (let f = \<lfloor>x\<rfloor>; r = x - of_int f
      in if r < 1 / 2 then f else if 1 / 2 < r then f + 1 else if even f then f else f + 1)"

text \<open>Python list indexing: a negative index counts from the end, anything else out of range raises.\<close>

definition py_index :: "'a list \<Rightarrow> int \<Rightarrow> failure + 'a" where
  "py_index xs i =
     (let n = int (length xs)
      in if 0 \<le> i \<and> i < n then Inr (xs ! nat i)
         else if - n \<le> i \<and> i < 0 then Inr (xs ! nat (n + i))
         else Inl IndexError)"

definition lr_values :: "real list" where
  "lr_values = [0.01, 0.005, 0.001, 0.0005, 0.0001]"

text \<open>
  The result is the learning rate written into every parameter group, \<open>None\<close> when the
  optimizer is left as it is. \<^verbatim>\<open>epoch/step\<close> is a true division and raises for
  \<^verbatim>\<open>step == 0\<close>.
\<close>

definition adjust_learning_rate :: "string \<Rightarrow> int \<Rightarrow> int \<Rightarrow> failure + real option" where
  "adjust_learning_rate optimizer epoch epochs =
     (if optimizer = ''sgd'' then
        (let step = py_round (real_of_int epochs / 5)
         in if step = 0 then Inl ZeroDivisionError
            else
              (let idx = min \<lfloor>real_of_int epoch / real_of_int step\<rfloor> (int (length lr_values))
               in case py_index lr_values idx of
                    Inl e \<Rightarrow> Inl e
                  | Inr learning_rate \<Rightarrow> Inr (Some learning_rate)))
      else Inr None)"

subsection \<open>The collaborators of the training loop\<close>

text \<open>
  \<^verbatim>\<open>nn.CrossEntropyLoss()\<close> (targets are class indices) and
  \<^verbatim>\<open>torch.nn.KLDivLoss(reduction='batchmean')\<close> (targets are distributions, inputs are
  log-probabilities).
\<close>

datatype criterion = CrossEntropyLoss | KLDivLoss

text \<open>
  What torch provides, for score tensors \<open>'o\<close> and label tensors \<open>'l\<close>:
  \<open>criterion_call c outputs labels\<close> is the value of \<^verbatim>\<open>criterion(outputs, labels)\<close>,
  \<open>log_softmax\<close> is \<^verbatim>\<open>torch.softmax(outputs, dim=1).log()\<close>, \<open>argmax\<close> is
  \<^verbatim>\<open>torch.max(outputs.data, 1)[1].cpu().int()\<close> and \<open>as_int\<close> is
  \<^verbatim>\<open>labels.cpu().int()\<close>.
\<close>

record ('o, 'l) torch =
  cuda_is_available :: bool
  criterion_call :: "criterion \<Rightarrow> 'o \<Rightarrow> 'l \<Rightarrow> real"
  log_softmax :: "'o \<Rightarrow> 'o"
  argmax :: "'o \<Rightarrow> int list"
  as_int :: "'l \<Rightarrow> int list"

text \<open>
  One step of an epoch as the loop body sees it after the loader, the augmentation and the
  forward pass: \<open>n_images\<close> is \<^verbatim>\<open>len(images)\<close>; \<open>labels_dis\<close> and \<open>labels_sev\<close> are the
  index labels (under \<^verbatim>\<open>'bc+'\<close> the arg-max of the mixed distributions); the \<open>_a\<close> and
  \<open>_b\<close> label sets and \<open>lam\<close> are what \<^verbatim>\<open>between_class\<close> or \<^verbatim>\<open>mixup_data\<close> returned
  (not read otherwise).
\<close>

record ('o, 'l) batch =
  n_images :: nat
  outputs_dis :: 'o
  outputs_sev :: 'o
  labels_dis :: 'l
  labels_sev :: 'l
  labels_dis_a :: 'l
  labels_dis_b :: 'l
  labels_sev_a :: 'l
  labels_sev_b :: 'l
  lam :: real

text \<open>
  Modelled from the spec: \<^verbatim>\<open>mixup_criterion\<close> of \<^verbatim>\<open>utils/augmentation.py\<close>, which is
  not among the sources. The spec: under mixup the loss is "a linear combination of the
  criterion evaluated against both label sides weighted by lambda",
  \<open>lam * f(labels_a) + (1 - lam) * f(labels_b)\<close>.
\<close>

definition mixup_criterion :: "('o \<Rightarrow> 'l \<Rightarrow> real) \<Rightarrow> 'o \<Rightarrow> 'l \<Rightarrow> 'l \<Rightarrow> real \<Rightarrow> real" where
  "mixup_criterion crit pred y_a y_b l = l * crit pred y_a + (1 - l) * crit pred y_b"

subsection \<open>\<^verbatim>\<open>EntireLeafClf.train\<close> (lines 182-268)\<close>


definition criterion_val :: criterion where
  "criterion_val = CrossEntropyLoss"

text \<open>Lines 205-216, for one head: the loss of the step.\<close>

definition head_loss ::
  "('o, 'l) torch \<Rightarrow> criterion \<Rightarrow> string option \<Rightarrow> 'o \<Rightarrow> 'l \<Rightarrow> 'l \<Rightarrow> 'l \<Rightarrow> real \<Rightarrow> real" where
  "head_loss T crit data_augmentation outputs labels labels_a labels_b l =
     (if data_augmentation = Some ''bc+'' then
        criterion_call T crit (log_softmax T outputs) labels_a
      else if data_augmentation = Some ''mixup'' then
        mixup_criterion (criterion_call T crit) outputs labels_a labels_b l
      else criterion_call T crit outputs labels)"

text \<open>Lines 221-227: the scalar whose \<^verbatim>\<open>backward()\<close> is called.\<close>

definition backward_loss :: "string \<Rightarrow> real \<Rightarrow> real \<Rightarrow> real" where
  "backward_loss output_std loss_dis loss_sev =
     (if output_std = ''multitask'' then loss_dis + loss_sev
      else if output_std = ''disease'' then loss_dis
      else loss_sev)"

text \<open>Lines 237-242: the loss of the step that enters the running sum, before the batch size.\<close>

definition batch_loss :: "string \<Rightarrow> real \<Rightarrow> real \<Rightarrow> real" where
  "batch_loss output_std loss_dis loss_sev =
     (if output_std = ''multitask'' then (loss_dis + loss_sev) / 2
      else if output_std = ''disease'' then loss_dis
      else loss_sev)"

text \<open>
  \<^verbatim>\<open>eval_metrics(...) * len(images)\<close>: a \<^verbatim>\<open>None\<close> from \<^verbatim>\<open>eval_metrics\<close> cannot be
  multiplied.
\<close>

definition times_len :: "failure + real option \<Rightarrow> nat \<Rightarrow> failure + real" where
  "times_len r n =
     (case r of Inl e \<Rightarrow> Inl e | Inr None \<Rightarrow> Inl TypeError | Inr (Some a) \<Rightarrow> Inr (a * real n))"

text \<open>
  Lines 245-251 and 254-260, for one head: the accuracy of the step, against both label
  sets under \<^verbatim>\<open>'mixup'\<close>.
\<close>

definition batch_acc ::
  "('o, 'l) torch \<Rightarrow> string option \<Rightarrow> 'o \<Rightarrow> 'l \<Rightarrow> 'l \<Rightarrow> 'l \<Rightarrow> real \<Rightarrow> failure + real option" where
  "batch_acc T data_augmentation outputs labels labels_a labels_b l =
     (let pred = argmax T outputs
      in if data_augmentation = Some ''mixup'' then
           eval_metrics ''acc'' pred (as_int T labels_a) (Some (as_int T labels_b)) (Some l)
         else eval_metrics ''acc'' pred (as_int T labels) None None)"

text \<open>
  The running accuracy sum after the step. The sum is touched only under
  \<^verbatim>\<open>if torch.cuda.is_available()\<close>.
\<close>

definition train_acc ::
  "('o, 'l) torch \<Rightarrow> string option \<Rightarrow> 'o \<Rightarrow> 'l \<Rightarrow> 'l \<Rightarrow> 'l \<Rightarrow> real \<Rightarrow> nat \<Rightarrow> real \<Rightarrow> failure + real" where
  "train_acc T data_augmentation outputs labels labels_a labels_b l n acc =
     (if cuda_is_available T then
        (case times_len (batch_acc T data_augmentation outputs labels labels_a labels_b l) n of
           Inl e \<Rightarrow> Inl e
         | Inr a \<Rightarrow> Inr (acc + a))
      else Inr acc)"

record metrics =
  loss :: real
  dis_acc :: real
  sev_acc :: real

text \<open>The two head losses of a training step (lines 205-216).\<close>

definition step_loss_dis :: "('o, 'l) torch \<Rightarrow> criterion \<Rightarrow> string option \<Rightarrow> ('o, 'l) batch \<Rightarrow> real" where
  "step_loss_dis T crit data_augmentation b =
     head_loss T crit data_augmentation (outputs_dis b) (labels_dis b)
       (labels_dis_a b) (labels_dis_b b) (lam b)"

definition step_loss_sev :: "('o, 'l) torch \<Rightarrow> criterion \<Rightarrow> string option \<Rightarrow> ('o, 'l) batch \<Rightarrow> real" where
  "step_loss_sev T crit data_augmentation b =
     head_loss T crit data_augmentation (outputs_sev b) (labels_sev b)
       (labels_sev_a b) (labels_sev_b b) (lam b)"

text \<open>
  The body of the training loop. The state is the list of scalars \<^verbatim>\<open>backward()\<close> was
  called on so far, oldest first, and the running sums.
\<close>

definition train_step ::
  "('o, 'l) torch \<Rightarrow> string \<Rightarrow> criterion \<Rightarrow> string option \<Rightarrow> ('o, 'l) batch
     \<Rightarrow> real list \<times> metrics \<Rightarrow> failure + real list \<times> metrics" where
  "train_step T output_std crit data_augmentation b st =
     (let loss_dis = step_loss_dis T crit data_augmentation b;
          loss_sev = step_loss_sev T crit data_augmentation b;
          backward = fst st @ [backward_loss output_std loss_dis loss_sev];
          m = snd st;
          m1 = m\<lparr>loss := loss m + batch_loss output_std loss_dis loss_sev * real (n_images b)\<rparr>
      in case train_acc T data_augmentation (outputs_dis b) (labels_dis b) (labels_dis_a b)
                (labels_dis_b b) (lam b) (n_images b) (dis_acc m1) of
           Inl e \<Rightarrow> Inl e
         | Inr d \<Rightarrow>
             (case train_acc T data_augmentation (outputs_sev b) (labels_sev b) (labels_sev_a b)
                     (labels_sev_b b) (lam b) (n_images b) (sev_acc m1) of
                Inl e \<Rightarrow> Inl e
              | Inr s \<Rightarrow> Inr (backward, m1\<lparr>dis_acc := d, sev_acc := s\<rparr>)))"

text \<open>
  Lines 262-266 and 310-314: the division by \<^verbatim>\<open>len(loader.dataset)\<close>. With an empty
  dataset a sum that is still a Python float raises; a tensor or numpy sum becomes NaN or
  infinite. \<open>python_float\<close> says that some sum was never added to.
\<close>

definition epoch_average :: "bool \<Rightarrow> nat \<Rightarrow> metrics \<Rightarrow> failure + metrics" where
  "epoch_average python_float dataset_len m =
     (if dataset_len = 0 then Inl (if python_float then ZeroDivisionError else NotANumber)
      else Inr \<lparr>loss = loss m / real dataset_len,
                dis_acc = 100 * dis_acc m / real dataset_len,
                sev_acc = 100 * sev_acc m / real dataset_len\<rparr>)"

definition zero_metrics :: metrics where
  "zero_metrics = \<lparr>loss = 0, dis_acc = 0, sev_acc = 0\<rparr>"

text \<open>
  \<^verbatim>\<open>train\<close>: the scalars backpropagated, in order, and the returned
  \<^verbatim>\<open>train_metrics\<close>. \<open>dataset_len\<close> is \<^verbatim>\<open>len(train_loader.dataset)\<close>.
\<close>

definition train ::
  "('o, 'l) torch \<Rightarrow> string \<Rightarrow> criterion \<Rightarrow> string option \<Rightarrow> ('o, 'l) batch list \<Rightarrow> nat
     \<Rightarrow> failure + real list \<times> metrics" where
  "train T output_std crit data_augmentation batches dataset_len =
     (case for_each (train_step T output_std crit data_augmentation) batches ([], zero_metrics) of
        Inl e \<Rightarrow> Inl e
      | Inr st \<Rightarrow>
          (case epoch_average (batches = [] \<or> \<not> cuda_is_available T) dataset_len (snd st) of
             Inl e \<Rightarrow> Inl e
           | Inr m \<Rightarrow> Inr (fst st, m)))"

subsection \<open>\<^verbatim>\<open>EntireLeafClf.validation\<close> (lines 270-316)\<close>

text \<open>The body of the validation loop: no augmentation, no backward pass.\<close>

definition val_acc :: "('o, 'l) torch \<Rightarrow> 'o \<Rightarrow> 'l \<Rightarrow> nat \<Rightarrow> real \<Rightarrow> failure + real" where
  "val_acc T outputs labels n acc =
     (let pred = argmax T outputs
      in if cuda_is_available T then
           (case times_len (eval_metrics ''acc'' pred (as_int T labels) None None) n of
              Inl e \<Rightarrow> Inl e
            | Inr a \<Rightarrow> Inr (acc + a))
         else Inr acc)"

definition val_step ::
  "('o, 'l) torch \<Rightarrow> string \<Rightarrow> criterion \<Rightarrow> ('o, 'l) batch \<Rightarrow> metrics \<Rightarrow> failure + metrics" where
  "val_step T output_std crit b m =
     (let loss_dis = criterion_call T crit (outputs_dis b) (labels_dis b);
          loss_sev = criterion_call T crit (outputs_sev b) (labels_sev b);
          m1 = m\<lparr>loss := loss m + batch_loss output_std loss_dis loss_sev * real (n_images b)\<rparr>
      in case val_acc T (outputs_dis b) (labels_dis b) (n_images b) (dis_acc m1) of
           Inl e \<Rightarrow> Inl e
         | Inr d \<Rightarrow>
             (case val_acc T (outputs_sev b) (labels_sev b) (n_images b) (sev_acc m1) of
                Inl e \<Rightarrow> Inl e
              | Inr s \<Rightarrow> Inr (m1\<lparr>dis_acc := d, sev_acc := s\<rparr>)))"

definition validation ::
  "('o, 'l) torch \<Rightarrow> string \<Rightarrow> criterion \<Rightarrow> ('o, 'l) batch list \<Rightarrow> nat \<Rightarrow> failure + metrics" where
  "validation T output_std crit batches dataset_len =
     (case for_each (val_step T output_std crit) batches zero_metrics of
        Inl e \<Rightarrow> Inl e
      | Inr m \<Rightarrow> epoch_average (batches = [] \<or> \<not> cuda_is_available T) dataset_len m)"

subsection \<open>The epoch loop of \<^verbatim>\<open>run_training\<close> (lines 361-396 and 666-700)\<close>

text \<open>
  \<open>saved\<close> lists the epochs at which \<^verbatim>\<open>torch.save\<close> wrote the checkpoint, oldest first.
  Both classifiers run the same loop.
\<close>

record run_state =
  best_loss :: real
  saved :: "nat list"

definition initial_state :: run_state where
  "initial_state = \<lparr>best_loss = 1000.0, saved = []\<rparr>"

text \<open>\<^verbatim>\<open>if (curr_loss < best_loss) and epoch >= 5:\<close>\<close>

definition record_best :: "nat \<Rightarrow> real \<Rightarrow> run_state \<Rightarrow> run_state" where
  "record_best epoch curr_loss st =
     (if curr_loss < best_loss st \<and> 5 \<le> epoch
      then st\<lparr>best_loss := curr_loss, saved := saved st @ [epoch]\<rparr>
      else st)"

text \<open>
  \<open>val_loss epoch\<close> is \<^verbatim>\<open>val_metrics['loss']\<close> of that epoch. The learning rate is
  adjusted before the checkpoint test, so a failure there ends the run with the writes
  made so far.
\<close>

fun epoch_loop ::
  "string \<Rightarrow> int \<Rightarrow> (nat \<Rightarrow> real) \<Rightarrow> nat list \<Rightarrow> run_state \<Rightarrow> failure option \<times> run_state" where
  "epoch_loop optimizer epochs val_loss [] st = (None, st)"
| "epoch_loop optimizer epochs val_loss (epoch # rest) st =
     (case adjust_learning_rate optimizer (int epoch) epochs of
        Inl e \<Rightarrow> (Some e, st)
      | Inr _ \<Rightarrow>
          epoch_loop optimizer epochs val_loss rest (record_best epoch (val_loss epoch) st))"

definition run_training :: "string \<Rightarrow> int \<Rightarrow> (nat \<Rightarrow> real) \<Rightarrow> failure option \<times> run_state" where
  "run_training optimizer epochs val_loss =
     epoch_loop optimizer epochs val_loss [0..<nat epochs] initial_state"

text \<open>
  The best validation loss recorded before epoch \<open>e\<close>, as the claims word it: the least of
  the initial value and the losses of the epochs from 5 on.
\<close>

definition best_before :: "(nat \<Rightarrow> real) \<Rightarrow> nat \<Rightarrow> real" where
  "best_before val_loss e = fold min (map val_loss [5..<e]) 1000"

definition strictly_decreasing :: "real list \<Rightarrow> bool" where
  "strictly_decreasing xs = sorted_wrt (\<lambda>a b. b < a) xs"

text \<open>The state of a run after \<open>k\<close> epochs, none of which raised, in closed form.\<close>

definition state_after :: "(nat \<Rightarrow> real) \<Rightarrow> nat \<Rightarrow> run_state" where
  "state_after val_loss k =
     \<lparr>best_loss = best_before val_loss k,
      saved = filter (\<lambda>e. 5 \<le> e \<and> val_loss e < best_before val_loss e) [0..<k]\<rparr>"

subsection \<open>Auxiliary notions for the statements\<close>

text \<open>The accuracy \<^verbatim>\<open>eval_metrics\<close> returned, where it returned one.\<close>

definition acc_value :: "failure + real option \<Rightarrow> real" where
  "acc_value r = (case r of Inr (Some a) \<Rightarrow> a | _ \<Rightarrow> 0)"

text \<open>
  A small instance of the collaborators for the examples: a score tensor is a number, which
  is also the value of any criterion on it; one image per batch, always predicted as class 0.
\<close>

definition toy_torch :: "bool \<Rightarrow> (real, int list) torch" where
  "toy_torch cuda =
     \<lparr>cuda_is_available = cuda, criterion_call = (\<lambda>c out lab. out), log_softmax = (\<lambda>out. out),
      argmax = (\<lambda>out. [0]), as_int = (\<lambda>lab. lab)\<rparr>"

definition toy_batch :: "real \<Rightarrow> real \<Rightarrow> (real, int list) batch" where
  "toy_batch x y =
     \<lparr>n_images = 1, outputs_dis = x, outputs_sev = y, labels_dis = [0], labels_sev = [0],
      labels_dis_a = [0], labels_dis_b = [1], labels_sev_a = [0], labels_sev_b = [1], lam = 1 / 4\<rparr>"

section \<open>Properties\<close>

subsection \<open>Mixed-label accuracy\<close>

lemma accuracy_score_fraction:
  assumes "length lab = length pred" and "pred \<noteq> []"
  shows "accuracy_score lab pred = Inr (agree_fraction pred lab)"
proof -
  have "length (filter (\<lambda>(t, p). t = p) (zip lab pred))
        = card {i. i < length (zip lab pred) \<and> (\<lambda>(t, p). t = p) (zip lab pred ! i)}"
    by (rule length_filter_conv_card)
  also have "{i. i < length (zip lab pred) \<and> (\<lambda>(t, p). t = p) (zip lab pred ! i)}
             = set (filter (\<lambda>i. pred ! i = lab ! i) [0..<length pred])"
    using assms(1) by auto
  also have "card \<dots> = length (filter (\<lambda>i. pred ! i = lab ! i) [0..<length pred])"
    by (rule distinct_card) simp
  finally show ?thesis
    using assms by (auto simp: accuracy_score_def agree_fraction_def)
qed

text \<open>
  Claim C1. For prediction and label vectors of one common, non-zero length and a mixing
  coefficient \<open>lam\<close> in \<open>[0, 1]\<close>, \<^verbatim>\<open>eval_metrics('acc', pred, a)\<close> is the fraction of
  positions where prediction and label agree, and
  \<^verbatim>\<open>eval_metrics('acc', pred, a, b, lam)\<close> is \<open>lam\<close> times that fraction for \<open>a\<close> plus
  \<open>1 - lam\<close> times that fraction for \<open>b\<close>. (On empty vectors both scores are NaN.)
\<close>

theorem mixup_accuracy_combination:
  fixes lam :: real
  assumes "length a = length pred" and "length b = length pred" and "pred \<noteq> []"
    and "0 \<le> lam" and "lam \<le> 1"
  shows "eval_metrics ''acc'' pred a None None = Inr (Some (agree_fraction pred a)) \<and>
         eval_metrics ''acc'' pred b None None = Inr (Some (agree_fraction pred b)) \<and>
         eval_metrics ''acc'' pred a (Some b) (Some lam)
         = Inr (Some (lam * agree_fraction pred a + (1 - lam) * agree_fraction pred b))"
  using assms by (simp add: eval_metrics_def accuracy_score_fraction)

theorem mixup_accuracy_combination_witness:
  "eval_metrics ''acc'' [1, 2, 3, 0] [1, 2, 0, 0] (Some [0, 2, 3, 1]) (Some (1 / 4))
     = Inr (Some (1 / 4 * agree_fraction [1, 2, 3, 0] [1, 2, 0, 0]
                  + (1 - 1 / 4) * agree_fraction [1, 2, 3, 0] [0, 2, 3, 1]))
   \<and> agree_fraction [1, 2, 3, 0] [1, 2, 0, 0] = 3 / 4
   \<and> agree_fraction [1, 2, 3, 0] [0, 2, 3, 1] = 1 / 2
   \<and> eval_metrics ''acc'' [1, 2, 3, 0] [1, 2, 0, 0] (Some [0, 2, 3, 1]) (Some (1 / 4))
     = Inr (Some (9 / 16))"
proof -
  have "eval_metrics ''acc'' [1, 2, 3, 0] [1, 2, 0, 0] (Some [0, 2, 3, 1]) (Some (1 / 4))
        = Inr (Some (1 / 4 * agree_fraction [1, 2, 3, 0] [1, 2, 0, 0]
                     + (1 - 1 / 4) * agree_fraction [1, 2, 3, 0] [0, 2, 3, 1]))"
    using mixup_accuracy_combination [of "[1, 2, 0, 0]" "[1, 2, 3, 0]" "[0, 2, 3, 1]" "1 / 4"]
    by simp
  moreover have "agree_fraction [1, 2, 3, 0] [1, 2, 0, 0] = 3 / 4"
    by (simp add: agree_fraction_def upt_rec)
  moreover have "agree_fraction [1, 2, 3, 0] [0, 2, 3, 1] = 1 / 2"
    by (simp add: agree_fraction_def upt_rec)
  moreover have "eval_metrics ''acc'' [1, 2, 3, 0] [1, 2, 0, 0] (Some [0, 2, 3, 1]) (Some (1 / 4))
                 = Inr (Some (9 / 16))"
    by (simp add: eval_metrics_def accuracy_score_def)
  ultimately show ?thesis by simp
qed

subsection \<open>The imbalance-aware sampler\<close>

lemma length_assign_at: "length (assign_at w idx v) = length w"
  unfolding assign_at_def by (induction idx arbitrary: w) simp_all

lemma nth_assign_at:
  "i < length w \<Longrightarrow> assign_at w idx v ! i = (if i \<in> set idx then v else w ! i)"
  unfolding assign_at_def
proof (induction idx arbitrary: w)
  case Nil
  then show ?case by simp
next
  case (Cons j idx)
  then show ?case by (cases "i = j") (simp_all add: nth_list_update)
qed

lemma set_np_where: "set (np_where flags) = {i. i < length flags \<and> flags ! i}"
  by (auto simp: np_where_def)

lemma length_np_where: "length (np_where flags) = length (filter (\<lambda>b. b) flags)"
proof -
  have "distinct (np_where flags)"
    by (simp add: np_where_def)
  then have "length (np_where flags) = card (set (np_where flags))"
    by (simp add: distinct_card)
  also have "\<dots> = card {i. i < length flags \<and> flags ! i}"
    by (simp add: set_np_where)
  also have "\<dots> = length (filter (\<lambda>b. b) flags)"
    by (simp add: length_filter_conv_card)
  finally show ?thesis .
qed

lemma count_flags: "length (filter (\<lambda>b. b) (map (\<lambda>x. x = c) keys)) = count_list keys c"
  by (induction keys) simp_all

lemma for_each_append:
  "for_each body (xs @ ys) st =
     (case for_each body xs st of Inl e \<Rightarrow> Inl e | Inr st' \<Rightarrow> for_each body ys st')"
  by (induction xs arbitrary: st) (simp_all split: sum.splits)

lemma for_each_map: "for_each body (map g xs) st = for_each (\<lambda>x. body (g x)) xs st"
  by (induction xs arbitrary: st) (simp_all split: sum.splits)

lemma for_each_product:
  "for_each (\<lambda>d. for_each (\<lambda>s. body (d, s)) ss) ds st = for_each body (List.product ds ss) st"
  by (induction ds arbitrary: st) (simp_all add: for_each_append for_each_map split: sum.splits)

lemma for_each_paint:
  assumes body: "\<And>c w. c \<in> set cs \<Longrightarrow> length w = length keys \<Longrightarrow>
                   body c w = Inr (assign_at w (np_where (map (\<lambda>x. x = c) keys)) (f c))"
    and len: "length w = length keys"
  shows "\<exists>w'. for_each body cs w = Inr w' \<and> length w' = length keys \<and>
           (\<forall>i<length keys. w' ! i = (if keys ! i \<in> set cs then f (keys ! i) else w ! i))"
  using assms
proof (induction cs arbitrary: w)
  case Nil
  then show ?case by simp
next
  case (Cons c cs)
  define w1 where "w1 = assign_at w (np_where (map (\<lambda>x. x = c) keys)) (f c)"
  have step: "body c w = Inr w1"
    unfolding w1_def using Cons.prems by simp
  have len1: "length w1 = length keys"
    unfolding w1_def using Cons.prems(2) by (simp add: length_assign_at)
  have nth1: "w1 ! i = (if keys ! i = c then f c else w ! i)" if "i < length keys" for i
    unfolding w1_def using that Cons.prems(2) by (simp add: nth_assign_at set_np_where)
  from Cons.IH [of w1] Cons.prems(1) len1
  obtain w' where w': "for_each body cs w1 = Inr w'" "length w' = length keys"
    "\<forall>i<length keys. w' ! i = (if keys ! i \<in> set cs then f (keys ! i) else w1 ! i)"
    by auto
  have "for_each body (c # cs) w = Inr w'"
    using step w'(1) by simp
  moreover have "\<forall>i<length keys. w' ! i = (if keys ! i \<in> set (c # cs) then f (keys ! i) else w ! i)"
    using w'(3) nth1 by auto
  ultimately show ?case using w'(2) by blast
qed

lemma cell_mask_rows:
  "cell_mask (map fst rows) (map snd rows) d s = map (\<lambda>x. x = (d, s)) rows"
  by (induction rows) (auto simp: cell_mask_def)

lemma joint_cell_rows:
  assumes "rows \<noteq> []"
  shows "joint_cell (map fst rows) (map snd rows) (length rows) d s w
         = Inr (assign_at w (np_where (map (\<lambda>x. x = (d, s)) rows))
                  (1 / ((real (count_list rows (d, s)) + 20) / real (length rows))))"
  using assms unfolding joint_cell_def Let_def cell_mask_rows count_flags balance_factor_def
  by simp

lemma set_grid: "set (List.product range5 range5) = {c. in_grid c}"
proof (rule set_eqI)
  fix c :: "int \<times> int"
  have mem: "x \<in> set range5 \<longleftrightarrow> 0 \<le> x \<and> x \<le> 4" for x
    unfolding range5_def by (simp, arith)
  obtain d s where c: "c = (d, s)"
    by (cases c)
  show "c \<in> set (List.product range5 range5) \<longleftrightarrow> c \<in> {c. in_grid c}"
    unfolding c using mem [of d] mem [of s] by (simp add: in_grid_def)
qed

lemma joint_weights_nth:
  assumes "rows \<noteq> []"
  shows "\<exists>w. joint_weights rows = Inr w \<and> length w = length rows \<and>
           (\<forall>i<length rows. w ! i =
              (if in_grid (rows ! i)
               then 1 / ((real (occurrences rows i) + 20) / real (length rows)) else 0))"
proof -
  let ?f = "\<lambda>c. 1 / ((real (count_list rows c) + 20) / real (length rows))"
  let ?body = "\<lambda>c. joint_cell (map fst rows) (map snd rows) (length rows) (fst c) (snd c)"
  have body: "?body c w = Inr (assign_at w (np_where (map (\<lambda>x. x = c) rows)) (?f c))" for c w
    using joint_cell_rows [OF assms, of "fst c" "snd c" w] by simp
  have "\<exists>w'. for_each ?body (List.product range5 range5) (replicate (length rows) 0) = Inr w' \<and>
          length w' = length rows \<and>
          (\<forall>i<length rows. w' ! i =
             (if rows ! i \<in> set (List.product range5 range5) then ?f (rows ! i)
              else replicate (length rows) 0 ! i))"
    by (rule for_each_paint) (simp_all add: body)
  then obtain w' where w':
    "for_each ?body (List.product range5 range5) (replicate (length rows) 0) = Inr w'"
    "length w' = length rows"
    "\<And>i. i < length rows \<Longrightarrow> w' ! i =
       (if rows ! i \<in> set (List.product range5 range5) then ?f (rows ! i)
        else replicate (length rows) 0 ! i)"
    by blast
  have "joint_weights rows
        = for_each ?body (List.product range5 range5) (replicate (length rows) 0)"
    using for_each_product [of "\<lambda>c. ?body c" range5 range5]
    by (simp add: joint_weights_def Let_def)
  then have "joint_weights rows = Inr w'"
    using w'(1) by simp
  moreover have "w' ! i = (if in_grid (rows ! i)
                   then 1 / ((real (occurrences rows i) + 20) / real (length rows)) else 0)"
    if "i < length rows" for i
    using w'(3) [OF that] that unfolding set_grid occurrences_def by simp
  ultimately show ?thesis
    using w'(2) by blast
qed

lemma single_class_member:
  assumes "t \<in> set targets"
  shows "single_class targets (length targets) t w
         = Inr (assign_at w (np_where (map (\<lambda>x. x = t) targets))
                  (1 / (real (count_list targets t) / real (length targets))))"
proof -
  have "count_list targets t > 0"
    using assms count_list_0_iff [of targets t] by auto
  moreover have "targets \<noteq> []"
    using assms by auto
  ultimately show ?thesis
    unfolding single_class_def Let_def length_np_where count_flags by simp
qed

lemma single_weights_nth:
  "\<exists>w. single_weights targets = Inr w \<and> length w = length targets \<and>
       (\<forall>i<length targets. w ! i = 1 / (real (occurrences targets i) / real (length targets)))"
proof -
  let ?f = "\<lambda>c. 1 / (real (count_list targets c) / real (length targets))"
  have "\<exists>w'. for_each (single_class targets (length targets)) (np_unique targets)
               (replicate (length targets) 0) = Inr w' \<and>
          length w' = length targets \<and>
          (\<forall>i<length targets. w' ! i =
             (if targets ! i \<in> set (np_unique targets) then ?f (targets ! i)
              else replicate (length targets) 0 ! i))"
    by (rule for_each_paint) (simp_all add: single_class_member np_unique_def)
  then obtain w' where w':
    "for_each (single_class targets (length targets)) (np_unique targets)
       (replicate (length targets) 0) = Inr w'"
    "length w' = length targets"
    "\<And>i. i < length targets \<Longrightarrow> w' ! i =
       (if targets ! i \<in> set (np_unique targets) then ?f (targets ! i)
        else replicate (length targets) 0 ! i)"
    by blast
  have "single_weights targets = Inr w'"
    using w'(1) by (simp add: single_weights_def Let_def)
  moreover have "w' ! i = 1 / (real (occurrences targets i) / real (length targets))"
    if "i < length targets" for i
    using w'(3) [OF that] that unfolding occurrences_def np_unique_def by simp
  ultimately show ?thesis
    using w'(2) by blast
qed

lemma sum_list_divide: "sum_list (map (\<lambda>x. x / s) w) = sum_list w / (s::real)"
  by (induction w) (simp_all add: add_divide_distrib)

lemma sum_list_weights_pos:
  fixes w :: "real list"
  assumes "\<forall>i<length w. 0 \<le> w ! i" and "i < length w" and "0 < w ! i"
  shows "0 < sum_list w"
proof -
  have nonneg: "\<And>x. x \<in> set w \<Longrightarrow> 0 \<le> x"
    using assms(1) by (auto simp: in_set_conv_nth)
  then have "0 \<le> sum_list w"
    by (rule sum_list_nonneg)
  moreover have "sum_list w \<noteq> 0"
  proof
    assume "sum_list w = 0"
    then have "\<forall>x\<in>set w. x = 0"
      using nonneg sum_list_nonneg_eq_0_iff [of w] by blast
    then have "w ! i = 0"
      using assms(2) by simp
    then show False
      using assms(3) by simp
  qed
  ultimately show ?thesis by simp
qed

lemma normalize_sums_to_one:
  assumes "0 < sum_list w"
  shows "normalize_weights w = Inr (map (\<lambda>x. x / sum_list w) w)"
    and "sum_list (map (\<lambda>x. x / sum_list w) w) = 1"
  using assms by (simp_all add: normalize_weights_def sum_list_divide)

lemma empty_cell_no_effect:
  assumes "count_list rows (d, s) = 0" and "rows \<noteq> []"
  shows "joint_cell (map fst rows) (map snd rows) (length rows) d s w = Inr w"
proof -
  have "length (np_where (map (\<lambda>x. x = (d, s)) rows)) = 0"
    unfolding length_np_where count_flags using assms(1) .
  then have "np_where (map (\<lambda>x. x = (d, s)) rows) = []"
    by simp
  then show ?thesis
    using joint_cell_rows [OF assms(2), of d s w] by (simp add: assign_at_def)
qed

lemma occurrences_pos: "i < length xs \<Longrightarrow> 0 < occurrences xs i"
  using count_list_0_iff [of xs "xs ! i"] by (auto simp: occurrences_def)

lemma joint_sampler:
  assumes ne: "data ds \<noteq> []" and i: "i < length (data ds)" and grid: "in_grid (data ds ! i)"
  shows "\<exists>w. joint_weights (data ds) = Inr w \<and> length w = length (data ds) \<and>
           (\<forall>k<length (data ds). w ! k =
              (if in_grid (data ds ! k)
               then 1 / ((real (occurrences (data ds) k) + 20) / real (length (data ds))) else 0)) \<and>
           0 < sum_list w \<and>
           sampler ds 1 = Inr (map (\<lambda>x. x / sum_list w) w) \<and>
           sum_list (map (\<lambda>x. x / sum_list w) w) = 1"
proof -
  from joint_weights_nth [OF ne] obtain w where w:
    "joint_weights (data ds) = Inr w" "length w = length (data ds)"
    "\<And>k. k < length (data ds) \<Longrightarrow> w ! k =
       (if in_grid (data ds ! k)
        then 1 / ((real (occurrences (data ds) k) + 20) / real (length (data ds))) else 0)"
    by blast
  have len: "0 < real (length (data ds))"
    using ne by simp
  have nonneg: "\<forall>k<length w. 0 \<le> w ! k"
    using w(2) w(3) len by simp
  have "0 < w ! i"
    using w(3) [OF i] grid len by simp
  then have pos: "0 < sum_list w"
    using sum_list_weights_pos [OF nonneg, of i] i w(2) by simp
  have "sampler ds 1 = normalize_weights w"
    by (simp add: sampler_def w(1))
  then show ?thesis
    using w normalize_sums_to_one [OF pos] pos by auto
qed

lemma single_sampler:
  assumes sel: "select_classifier \<noteq> 1"
  shows "\<exists>w. single_weights (samples ds) = Inr w \<and> length w = length (samples ds) \<and>
           (\<forall>k<length (samples ds). w ! k =
              1 / (real (occurrences (samples ds) k) / real (length (samples ds)))) \<and>
           (\<forall>k<length (samples ds). 0 < w ! k) \<and>
           sampler ds select_classifier = Inr (map (\<lambda>x. x / sum_list w) w) \<and>
           (samples ds \<noteq> [] \<longrightarrow> 0 < sum_list w \<and> sum_list (map (\<lambda>x. x / sum_list w) w) = 1)"
proof -
  from single_weights_nth [of "samples ds"] obtain w where w:
    "single_weights (samples ds) = Inr w" "length w = length (samples ds)"
    "\<And>k. k < length (samples ds) \<Longrightarrow>
       w ! k = 1 / (real (occurrences (samples ds) k) / real (length (samples ds)))"
    by blast
  have wpos: "0 < w ! k" if "k < length (samples ds)" for k
  proof -
    have "0 < length (samples ds)"
      using that by arith
    then have "0 < real (length (samples ds))"
      by (simp del: length_greater_0_conv)
    moreover have "0 < real (occurrences (samples ds) k)"
      using occurrences_pos [OF that] by simp
    ultimately show ?thesis
      using w(3) [OF that] by simp
  qed
  have pos: "0 < sum_list w" if "samples ds \<noteq> []"
  proof -
    have "0 < length (samples ds)" using that by simp
    then show ?thesis
      using sum_list_weights_pos [of w 0] wpos w(2) by (simp add: less_imp_le)
  qed
  have "sampler ds select_classifier = normalize_weights w"
    using sel by (simp add: sampler_def w(1))
  moreover have "normalize_weights w = Inr (map (\<lambda>x. x / sum_list w) w)"
  proof (cases "samples ds = []")
    case True
    then show ?thesis using w(2) by (simp add: normalize_weights_def)
  next
    case False
    then show ?thesis using normalize_sums_to_one(1) [OF pos] by simp
  qed
  ultimately show ?thesis
    using w wpos pos normalize_sums_to_one(2) by auto
qed

lemma count_list_replicate: "count_list (replicate n x) y = (if x = y then n else 0)"
  by (induction n) auto

text \<open>
  Claim C2. Joint case, on a non-empty dataset: the loop over the 25 cells succeeds, a cell
  with no occurrence leaves every weight as it was, and every example inside the grid gets
  the weight \<open>1 / ((n + 20) / total)\<close> before normalization, \<open>n\<close> the number of
  examples of its (disease, severity) cell. Single-label case: the loop runs over the
  observed classes only and every example gets \<open>1 / (n / total)\<close>, \<open>n\<close> the size of its
  class. In both cases the sampler divides every weight by the sum of all, and the result
  sums to 1 (joint: when some example lies in the grid; single: when the dataset is not
  empty). With 100 single-label samples, an example of a class of 10 gets 9 times the
  weight of an example of a class of 90.
\<close>

theorem sampler_weighting:
  "(data ds \<noteq> [] \<longrightarrow>
      (\<forall>d s w. count_list (data ds) (d, s) = 0 \<longrightarrow>
         joint_cell (map fst (data ds)) (map snd (data ds)) (length (data ds)) d s w = Inr w) \<and>
      (\<exists>w. joint_weights (data ds) = Inr w \<and> length w = length (data ds) \<and>
         (\<forall>i<length (data ds). in_grid (data ds ! i) \<longrightarrow>
            w ! i = 1 / ((real (occurrences (data ds) i) + 20) / real (length (data ds)))) \<and>
         ((\<exists>i<length (data ds). in_grid (data ds ! i)) \<longrightarrow>
            sampler ds 1 = Inr (map (\<lambda>x. x / sum_list w) w) \<and>
            sum_list (map (\<lambda>x. x / sum_list w) w) = 1)))
   \<and> (select_classifier \<noteq> 1 \<longrightarrow>
      set (np_unique (samples ds)) = set (samples ds) \<and>
      (\<exists>w. single_weights (samples ds) = Inr w \<and> length w = length (samples ds) \<and>
         (\<forall>i<length (samples ds).
            w ! i = 1 / (real (occurrences (samples ds) i) / real (length (samples ds)))) \<and>
         sampler ds select_classifier = Inr (map (\<lambda>x. x / sum_list w) w) \<and>
         (samples ds \<noteq> [] \<longrightarrow> sum_list (map (\<lambda>x. x / sum_list w) w) = 1)))
   \<and> (select_classifier \<noteq> 1 \<and> length (samples ds) = 100 \<and> i < 100 \<and> j < 100 \<and>
        occurrences (samples ds) i = 10 \<and> occurrences (samples ds) j = 90 \<longrightarrow>
      (\<exists>ws. sampler ds select_classifier = Inr ws \<and> length ws = 100 \<and> ws ! i = 9 * ws ! j))"
proof (intro conjI impI)
  assume ne: "data ds \<noteq> []"
  show "\<forall>d s w. count_list (data ds) (d, s) = 0 \<longrightarrow>
          joint_cell (map fst (data ds)) (map snd (data ds)) (length (data ds)) d s w = Inr w"
    using empty_cell_no_effect [OF _ ne] by blast
  from joint_weights_nth [OF ne] obtain w where w:
    "joint_weights (data ds) = Inr w" "length w = length (data ds)"
    "\<And>k. k < length (data ds) \<Longrightarrow> w ! k =
       (if in_grid (data ds ! k)
        then 1 / ((real (occurrences (data ds) k) + 20) / real (length (data ds))) else 0)"
    by blast
  have "sampler ds 1 = Inr (map (\<lambda>x. x / sum_list w) w) \<and>
        sum_list (map (\<lambda>x. x / sum_list w) w) = 1"
    if "\<exists>i<length (data ds). in_grid (data ds ! i)"
  proof -
    from that obtain i where i: "i < length (data ds)" "in_grid (data ds ! i)"
      by blast
    from joint_sampler [OF ne i] w(1) show ?thesis
      by auto
  qed
  then show "\<exists>w. joint_weights (data ds) = Inr w \<and> length w = length (data ds) \<and>
         (\<forall>i<length (data ds). in_grid (data ds ! i) \<longrightarrow>
            w ! i = 1 / ((real (occurrences (data ds) i) + 20) / real (length (data ds)))) \<and>
         ((\<exists>i<length (data ds). in_grid (data ds ! i)) \<longrightarrow>
            sampler ds 1 = Inr (map (\<lambda>x. x / sum_list w) w) \<and>
            sum_list (map (\<lambda>x. x / sum_list w) w) = 1)"
    using w by (intro exI [of _ w]) simp
next
  assume sel: "select_classifier \<noteq> 1"
  show "set (np_unique (samples ds)) = set (samples ds)"
    by (simp add: np_unique_def)
  from single_sampler [OF sel, of ds]
  show "\<exists>w. single_weights (samples ds) = Inr w \<and> length w = length (samples ds) \<and>
         (\<forall>i<length (samples ds).
            w ! i = 1 / (real (occurrences (samples ds) i) / real (length (samples ds)))) \<and>
         sampler ds select_classifier = Inr (map (\<lambda>x. x / sum_list w) w) \<and>
         (samples ds \<noteq> [] \<longrightarrow> sum_list (map (\<lambda>x. x / sum_list w) w) = 1)"
    by blast
next
  assume h: "select_classifier \<noteq> 1 \<and> length (samples ds) = 100 \<and> i < 100 \<and> j < 100 \<and>
        occurrences (samples ds) i = 10 \<and> occurrences (samples ds) j = 90"
  then have sel: "select_classifier \<noteq> 1" by simp
  from single_sampler [OF sel, of ds] obtain w where w:
    "length w = length (samples ds)"
    "\<And>k. k < length (samples ds) \<Longrightarrow>
       w ! k = 1 / (real (occurrences (samples ds) k) / real (length (samples ds)))"
    "sampler ds select_classifier = Inr (map (\<lambda>x. x / sum_list w) w)"
    by blast
  have wi: "w ! i = 10" and wj: "w ! j = 10 / 9"
    using w(2) [of i] w(2) [of j] h by simp_all
  have "map (\<lambda>x. x / sum_list w) w ! i = 9 * (map (\<lambda>x. x / sum_list w) w ! j)"
    using h w(1) wi wj by simp
  then show "\<exists>ws. sampler ds select_classifier = Inr ws \<and> length ws = 100 \<and> ws ! i = 9 * ws ! j"
    using w(1) w(3) h by simp
qed

text \<open>
  Claim C3. For a non-empty dataset the sampler returns a weight vector, one weight per
  example, with every entry non-negative and the entries summing to 1, and every example
  gets a strictly positive weight: in the single-label case without condition, in the
  joint case for the examples of the 5 x 5 grid of the data model (disease and severity in
  0..4), at least one of which must be present.
\<close>

theorem sampler_weights_invariant:
  "(data ds \<noteq> [] \<and> (\<exists>i<length (data ds). in_grid (data ds ! i)) \<longrightarrow>
      (\<exists>ws. sampler ds 1 = Inr ws \<and> length ws = length (data ds) \<and>
         (\<forall>k<length ws. 0 \<le> ws ! k) \<and> sum_list ws = 1 \<and>
         (\<forall>k<length ws. in_grid (data ds ! k) \<longrightarrow> 0 < ws ! k)))
   \<and> (samples ds \<noteq> [] \<and> select_classifier \<noteq> 1 \<longrightarrow>
      (\<exists>ws. sampler ds select_classifier = Inr ws \<and> length ws = length (samples ds) \<and>
         (\<forall>k<length ws. 0 \<le> ws ! k) \<and> sum_list ws = 1 \<and> (\<forall>k<length ws. 0 < ws ! k)))"
proof (intro conjI impI)
  assume "data ds \<noteq> [] \<and> (\<exists>i<length (data ds). in_grid (data ds ! i))"
  then obtain i where ne: "data ds \<noteq> []" and i: "i < length (data ds)" "in_grid (data ds ! i)"
    by blast
  from joint_sampler [OF ne i] obtain w where w:
    "length w = length (data ds)"
    "\<And>k. k < length (data ds) \<Longrightarrow> w ! k =
       (if in_grid (data ds ! k)
        then 1 / ((real (occurrences (data ds) k) + 20) / real (length (data ds))) else 0)"
    "0 < sum_list w"
    "sampler ds 1 = Inr (map (\<lambda>x. x / sum_list w) w)"
    "sum_list (map (\<lambda>x. x / sum_list w) w) = 1"
    by blast
  let ?ws = "map (\<lambda>x. x / sum_list w) w"
  have len: "0 < real (length (data ds))"
    using ne by simp
  have nonneg: "0 \<le> w ! k" if "k < length (data ds)" for k
    using w(2) [OF that] len by simp
  have pos: "0 < w ! k" if "k < length (data ds)" "in_grid (data ds ! k)" for k
    using w(2) [OF that(1)] that(2) len by simp
  have "\<forall>k<length ?ws. 0 \<le> ?ws ! k"
    using nonneg w(1) w(3) by simp
  moreover have "\<forall>k<length ?ws. in_grid (data ds ! k) \<longrightarrow> 0 < ?ws ! k"
    using pos w(1) w(3) by simp
  ultimately show "\<exists>ws. sampler ds 1 = Inr ws \<and> length ws = length (data ds) \<and>
         (\<forall>k<length ws. 0 \<le> ws ! k) \<and> sum_list ws = 1 \<and>
         (\<forall>k<length ws. in_grid (data ds ! k) \<longrightarrow> 0 < ws ! k)"
    using w(1) w(4) w(5) by (intro exI [of _ ?ws]) simp
next
  assume h: "samples ds \<noteq> [] \<and> select_classifier \<noteq> 1"
  then have sel: "select_classifier \<noteq> 1" and ne: "samples ds \<noteq> []"
    by simp_all
  from single_sampler [OF sel, of ds] ne obtain w where w:
    "length w = length (samples ds)"
    "\<And>k. k < length (samples ds) \<Longrightarrow> 0 < w ! k"
    "sampler ds select_classifier = Inr (map (\<lambda>x. x / sum_list w) w)"
    "0 < sum_list w"
    "sum_list (map (\<lambda>x. x / sum_list w) w) = 1"
    by blast
  let ?ws = "map (\<lambda>x. x / sum_list w) w"
  have "\<forall>k<length ?ws. 0 < ?ws ! k"
    using w(1) w(2) w(4) by simp
  then have "\<forall>k<length ?ws. 0 \<le> ?ws ! k \<and> 0 < ?ws ! k"
    by (simp add: less_imp_le)
  then show "\<exists>ws. sampler ds select_classifier = Inr ws \<and> length ws = length (samples ds) \<and>
         (\<forall>k<length ws. 0 \<le> ws ! k) \<and> sum_list ws = 1 \<and> (\<forall>k<length ws. 0 < ws ! k)"
    using w(1) w(3) w(5) by (intro exI [of _ ?ws]) simp
qed

theorem sampler_weighting_witness:
  "(\<exists>w. joint_weights [(0, 0), (0, 0), (1, 2)] = Inr w \<and> length w = 3 \<and>
        w ! 2 = 1 / ((1 + 20) / 3) \<and> w ! 0 = 1 / ((2 + 20) / 3) \<and>
        sampler \<lparr>data = [(0, 0), (0, 0), (1, 2)], samples = replicate 90 0 @ replicate 10 1\<rparr> 1
          = Inr (map (\<lambda>x. x / sum_list w) w) \<and>
        sum_list (map (\<lambda>x. x / sum_list w) w) = 1)
   \<and> (\<exists>ws. sampler \<lparr>data = [(0, 0), (0, 0), (1, 2)], samples = replicate 90 0 @ replicate 10 1\<rparr> 2
              = Inr ws \<and> length ws = 100 \<and> ws ! 95 = 9 * ws ! 3)"
proof -
  let ?ds = "\<lparr>data = [(0, 0), (0, 0), (1, 2)], samples = replicate 90 0 @ replicate 10 1\<rparr>"
  note inst = sampler_weighting [of ?ds 2 95 3]
  have ne: "data ?ds \<noteq> []"
    by simp
  from inst [THEN conjunct1, rule_format, OF ne, THEN conjunct2] obtain w where w:
    "joint_weights (data ?ds) = Inr w" "length w = length (data ?ds)"
    "\<forall>i<length (data ?ds). in_grid (data ?ds ! i) \<longrightarrow>
       w ! i = 1 / ((real (occurrences (data ?ds) i) + 20) / real (length (data ?ds)))"
    "(\<exists>i<length (data ?ds). in_grid (data ?ds ! i)) \<longrightarrow>
       sampler ?ds 1 = Inr (map (\<lambda>x. x / sum_list w) w) \<and>
       sum_list (map (\<lambda>x. x / sum_list w) w) = 1"
    by blast
  have g0: "in_grid (data ?ds ! 0)" and g2: "in_grid (data ?ds ! 2)"
    by (simp_all add: in_grid_def)
  have "w ! 2 = 1 / ((1 + 20) / 3)"
    using w(3) [rule_format, of 2] g2 by (simp add: occurrences_def)
  moreover have "w ! 0 = 1 / ((2 + 20) / 3)"
    using w(3) [rule_format, of 0] g0 by (simp add: occurrences_def)
  moreover have "\<exists>i<length (data ?ds). in_grid (data ?ds ! i)"
    using g0 by (intro exI [of _ 0]) simp
  then have "sampler ?ds 1 = Inr (map (\<lambda>x. x / sum_list w) w) \<and>
             sum_list (map (\<lambda>x. x / sum_list w) w) = 1"
    using w(4) by blast
  ultimately have joint: "\<exists>w. joint_weights [(0, 0), (0, 0), (1, 2)] = Inr w \<and> length w = 3 \<and>
        w ! 2 = 1 / ((1 + 20) / 3) \<and> w ! 0 = 1 / ((2 + 20) / 3) \<and>
        sampler ?ds 1 = Inr (map (\<lambda>x. x / sum_list w) w) \<and>
        sum_list (map (\<lambda>x. x / sum_list w) w) = 1"
    using w(1) w(2) by (intro exI [of _ w]) simp
  have hyp: "(2::int) \<noteq> 1 \<and> length (samples ?ds) = 100 \<and> (95::nat) < 100 \<and> (3::nat) < 100 \<and>
             occurrences (samples ?ds) 95 = 10 \<and> occurrences (samples ?ds) 3 = 90"
    by (simp add: occurrences_def nth_append count_list_replicate)
  from inst [THEN conjunct2, THEN conjunct2, rule_format, OF hyp] joint
  show ?thesis by blast
qed

theorem sampler_weights_invariant_witness:
  "(\<exists>ws. sampler \<lparr>data = [(0, 0), (0, 0), (1, 2)], samples = [3, 3, 7]\<rparr> 1 = Inr ws \<and>
         length ws = 3 \<and> 0 \<le> ws ! 0 \<and> sum_list ws = 1 \<and> 0 < ws ! 2)
   \<and> (\<exists>ws. sampler \<lparr>data = [(0, 0), (0, 0), (1, 2)], samples = [3, 3, 7]\<rparr> 0 = Inr ws \<and>
         length ws = 3 \<and> 0 \<le> ws ! 0 \<and> sum_list ws = 1 \<and> 0 < ws ! 2)"
proof -
  let ?ds = "\<lparr>data = [(0, 0), (0, 0), (1, 2)], samples = [3, 3, 7]\<rparr>"
  note inst = sampler_weights_invariant [of ?ds 0]
  have g2: "in_grid (data ?ds ! 2)"
    by (simp add: in_grid_def)
  have "\<exists>i<length (data ?ds). in_grid (data ?ds ! i)"
    using g2 by (intro exI [of _ 2]) simp
  then have hyp1: "data ?ds \<noteq> [] \<and> (\<exists>i<length (data ?ds). in_grid (data ?ds ! i))"
    by simp
  have hyp2: "samples ?ds \<noteq> [] \<and> (0::int) \<noteq> 1"
    by simp
  from inst [THEN conjunct1, rule_format, OF hyp1] g2
  have "\<exists>ws. sampler ?ds 1 = Inr ws \<and> length ws = 3 \<and> 0 \<le> ws ! 0 \<and> sum_list ws = 1 \<and> 0 < ws ! 2"
    by auto
  moreover from inst [THEN conjunct2, rule_format, OF hyp2]
  have "\<exists>ws. sampler ?ds 0 = Inr ws \<and> length ws = 3 \<and> 0 \<le> ws ! 0 \<and> sum_list ws = 1 \<and> 0 < ws ! 2"
    by auto
  ultimately show ?thesis by blast
qed

subsection \<open>The learning-rate schedule\<close>

text \<open>
  Claim C9. The claim holds that the index is at most 4. With 7 epochs the step is
  \<open>round(7 / 5) = 1\<close>, and at epoch 5 the index is \<open>min(5, 5) = 5\<close>, the length of
  \<^verbatim>\<open>lr_values\<close>: the access raises \<^verbatim>\<open>IndexError\<close>.
\<close>

theorem adjust_learning_rate_out_of_range:
  "adjust_learning_rate ''sgd'' 5 7 = Inl IndexError"
  by (simp add: adjust_learning_rate_def py_round_def py_index_def lr_values_def Let_def)

text \<open>With one epoch the step is \<open>round(1 / 5) = 0\<close> and the division raises.\<close>

lemma adjust_learning_rate_zero_step:
  "adjust_learning_rate ''sgd'' 0 1 = Inl ZeroDivisionError"
  by (simp add: adjust_learning_rate_def py_round_def py_index_def lr_values_def Let_def)

text \<open>
  When the schedule raises: the step is \<open>(epochs + 2) div 5\<close>, and the access is out of
  range from epoch \<open>5 * step\<close> on.
\<close>

lemma py_round_fifths: "py_round (real_of_int n / 5) = (n + 2) div 5"
proof -
  define q r where "q = n div 5" and "r = n mod 5"
  have n: "n = 5 * q + r" and r: "0 \<le> r" "r < 5"
    by (simp_all add: q_def r_def)
  have val: "real_of_int n / 5 = real_of_int q + real_of_int r / 5"
    by (simp add: n)
  have fl: "\<lfloor>real_of_int n / 5\<rfloor> = q"
    unfolding val using r by (intro floor_unique) simp_all
  have frac: "real_of_int n / 5 - real_of_int q = real_of_int r / 5"
    by (simp add: val)
  have tgt: "(n + 2) div 5 = (if r < 3 then q else q + 1)"
    unfolding n using r by (auto simp: div_pos_pos_trivial)
  consider "r = 0" | "r = 1" | "r = 2" | "r = 3" | "r = 4"
    using r by arith
  then show ?thesis
    unfolding py_round_def Let_def fl frac tgt by cases simp_all
qed

lemma adjust_learning_rate_sgd:
  assumes "0 \<le> e" and "0 < n"
  shows "(\<exists>x. adjust_learning_rate ''sgd'' e n = Inl x) \<longleftrightarrow> n < 3 \<or> 5 * ((n + 2) div 5) \<le> e"
proof (cases "n < 3")
  case True
  then have "(n + 2) div 5 = 0"
    using assms(2) by simp
  then show ?thesis
    using True by (simp add: adjust_learning_rate_def py_round_fifths)
next
  case False
  define step where "step = (n + 2) div 5"
  have step: "0 < step"
    unfolding step_def using False by simp
  have fl: "\<lfloor>real_of_int e / real_of_int step\<rfloor> = e div step"
    by (simp add: floor_divide_of_int_eq)
  have eq: "e = step * (e div step) + e mod step"
    by simp
  have m: "0 \<le> e mod step" "e mod step < step"
    using step by simp_all
  have nonneg: "0 \<le> e div step"
    using assms(1) step by (simp add: pos_imp_zdiv_nonneg_iff)
  have "(\<exists>x. py_index lr_values (min (e div step) 5) = Inl x) \<longleftrightarrow> 5 \<le> e div step"
    using nonneg by (auto simp: py_index_def lr_values_def Let_def min_def)
  also have "\<dots> \<longleftrightarrow> 5 * step \<le> e"
  proof
    assume "5 \<le> e div step"
    then have "step * 5 \<le> step * (e div step)"
      using step by simp
    then show "5 * step \<le> e"
      using eq m by linarith
  next
    assume a: "5 * step \<le> e"
    show "5 \<le> e div step"
    proof (rule ccontr)
      assume "\<not> 5 \<le> e div step"
      then have "e div step \<le> 4"
        by simp
      then have "step * (e div step) \<le> step * 4"
        using step by simp
      then show False
        using eq m a by linarith
    qed
  qed
  finally show ?thesis
    using False step
    by (auto simp: adjust_learning_rate_def py_round_fifths step_def [symmetric] fl lr_values_def
             Let_def split: sum.splits)
qed

lemma py_round_10: "py_round (real_of_int 10 / 5) = 2"
  by (simp add: py_round_def Let_def)

lemma adjust_10:
  assumes "e < 10"
  shows "\<exists>r. adjust_learning_rate optimizer (int e) 10 = Inr r"
proof (cases "optimizer = ''sgd''")
  case False
  then show ?thesis by (simp add: adjust_learning_rate_def)
next
  case True
  have "\<lfloor>real_of_int (int e) / real_of_int 2\<rfloor> = int e div 2"
    using floor_divide_of_nat_eq [of e 2, where ?'a = real] by (simp add: zdiv_int)
  moreover have "0 \<le> int e div 2" "int e div 2 < 5"
    using assms by simp_all
  ultimately show ?thesis
    using True py_round_10
    by (simp add: adjust_learning_rate_def py_index_def lr_values_def Let_def)
qed

lemma epoch_loop_snoc:
  "epoch_loop optimizer epochs val_loss (xs @ [x]) st =
     (case epoch_loop optimizer epochs val_loss xs st of
        (Some e, st') \<Rightarrow> (Some e, st')
      | (None, st') \<Rightarrow>
          (case adjust_learning_rate optimizer (int x) epochs of
             Inl e \<Rightarrow> (Some e, st')
           | Inr _ \<Rightarrow> (None, record_best x (val_loss x) st')))"
  by (induction xs arbitrary: st) (simp_all split: sum.splits)

lemma best_before_Suc:
  "best_before val_loss (Suc k) =
     (if 5 \<le> k then min (val_loss k) (best_before val_loss k) else best_before val_loss k)"
  by (simp add: best_before_def)

lemma record_best_state_after:
  "record_best k (val_loss k) (state_after val_loss k) = state_after val_loss (Suc k)"
  by (auto simp: record_best_def state_after_def best_before_Suc min_def)

lemma epoch_loop_prefix:
  assumes "fst (epoch_loop optimizer epochs val_loss [0..<k] initial_state) = None"
  shows "snd (epoch_loop optimizer epochs val_loss [0..<k] initial_state) = state_after val_loss k"
  using assms
proof (induction k)
  case 0
  then show ?case
    by (simp add: initial_state_def state_after_def best_before_def)
next
  case (Suc k)
  obtain r st where run: "epoch_loop optimizer epochs val_loss [0..<k] initial_state = (r, st)"
    by (cases "epoch_loop optimizer epochs val_loss [0..<k] initial_state")
  have r: "r = None"
    using Suc.prems run by (cases r) (simp_all add: epoch_loop_snoc)
  then have st: "st = state_after val_loss k"
    using Suc.IH run by simp
  obtain lr where ok: "adjust_learning_rate optimizer (int k) epochs = Inr lr"
    using Suc.prems run r
    by (cases "adjust_learning_rate optimizer (int k) epochs") (simp_all add: epoch_loop_snoc)
  show ?case
    using run r st ok by (simp add: epoch_loop_snoc record_best_state_after)
qed

lemma epoch_loop_completes:
  assumes "\<And>e. e < k \<Longrightarrow> \<exists>r. adjust_learning_rate optimizer (int e) epochs = Inr r"
  shows "fst (epoch_loop optimizer epochs val_loss [0..<k] st) = None"
  using assms
proof (induction k)
  case 0
  then show ?case by simp
next
  case (Suc k)
  obtain r st' where run: "epoch_loop optimizer epochs val_loss [0..<k] st = (r, st')"
    by (cases "epoch_loop optimizer epochs val_loss [0..<k] st")
  have "r = None"
    using Suc.IH Suc.prems run by simp
  moreover obtain lr where "adjust_learning_rate optimizer (int k) epochs = Inr lr"
    using Suc.prems [of k] by auto
  ultimately show ?case
    using run by (simp add: epoch_loop_snoc)
qed

lemma record_best_from_5:
  "\<forall>e\<in>set (saved st). 5 \<le> e \<Longrightarrow> \<forall>e\<in>set (saved (record_best k c st)). 5 \<le> e"
  by (simp add: record_best_def)

lemma saved_from_5:
  "\<forall>e\<in>set (saved st). 5 \<le> e \<Longrightarrow>
   \<forall>e\<in>set (saved (snd (epoch_loop optimizer epochs val_loss es st))). 5 \<le> e"
proof (induction es arbitrary: st)
  case Nil
  then show ?case by simp
next
  case (Cons k es)
  show ?case
  proof (cases "adjust_learning_rate optimizer (int k) epochs")
    case (Inl e)
    then show ?thesis using Cons.prems by simp
  next
    case (Inr r)
    then show ?thesis
      using Cons.IH [OF record_best_from_5 [OF Cons.prems]] by simp
  qed
qed

text \<open>
  A run with the \<^verbatim>\<open>'sgd'\<close> optimizer is cut short by the schedule exactly when the
  epoch count is 1 or 2 above a multiple of 5.
\<close>

lemma epoch_loop_raises:
  assumes "e < k" and "adjust_learning_rate optimizer (int e) epochs = Inl x"
  shows "fst (epoch_loop optimizer epochs val_loss [0..<k] st) \<noteq> None"
  using assms(1)
proof (induction k)
  case 0
  then show ?case by simp
next
  case (Suc k)
  obtain r st' where run: "epoch_loop optimizer epochs val_loss [0..<k] st = (r, st')"
    by (cases "epoch_loop optimizer epochs val_loss [0..<k] st")
  show ?case
  proof (cases "e = k")
    case True
    then show ?thesis
      using run assms(2) by (cases r) (simp_all add: epoch_loop_snoc)
  next
    case False
    then have "e < k"
      using Suc.prems by simp
    then have "r \<noteq> None"
      using Suc.IH run by simp
    then show ?thesis
      using run by (cases r) (simp_all add: epoch_loop_snoc)
  qed
qed

lemma sgd_run_raises_iff:
  assumes "0 < epochs"
  shows "fst (run_training ''sgd'' epochs val_loss) \<noteq> None \<longleftrightarrow> epochs mod 5 = 1 \<or> epochs mod 5 = 2"
proof -
  have bad: "(\<exists>x. adjust_learning_rate ''sgd'' (int e) epochs = Inl x)
             \<longleftrightarrow> epochs < 3 \<or> 5 * ((epochs + 2) div 5) \<le> int e" for e
    using adjust_learning_rate_sgd [of "int e" epochs] assms by simp
  have "fst (run_training ''sgd'' epochs val_loss) \<noteq> None
        \<longleftrightarrow> (\<exists>e<nat epochs. \<exists>x. adjust_learning_rate ''sgd'' (int e) epochs = Inl x)"
  proof
    assume "fst (run_training ''sgd'' epochs val_loss) \<noteq> None"
    then show "\<exists>e<nat epochs. \<exists>x. adjust_learning_rate ''sgd'' (int e) epochs = Inl x"
      unfolding run_training_def
      using epoch_loop_completes [of "nat epochs" "''sgd''" epochs val_loss initial_state]
      by (metis sum.exhaust)
  next
    assume "\<exists>e<nat epochs. \<exists>x. adjust_learning_rate ''sgd'' (int e) epochs = Inl x"
    then show "fst (run_training ''sgd'' epochs val_loss) \<noteq> None"
      unfolding run_training_def using epoch_loop_raises by blast
  qed
  also have "\<dots> \<longleftrightarrow> (\<exists>e<nat epochs. epochs < 3 \<or> 5 * ((epochs + 2) div 5) \<le> int e)"
    by (simp add: bad)
  also have "\<dots> \<longleftrightarrow> epochs < 3 \<or> 5 * ((epochs + 2) div 5) < epochs"
  proof
    assume "\<exists>e<nat epochs. epochs < 3 \<or> 5 * ((epochs + 2) div 5) \<le> int e"
    then show "epochs < 3 \<or> 5 * ((epochs + 2) div 5) < epochs"
      by auto
  next
    assume h: "epochs < 3 \<or> 5 * ((epochs + 2) div 5) < epochs"
    have "nat (epochs - 1) < nat epochs" "int (nat (epochs - 1)) = epochs - 1"
      using assms by simp_all
    then show "\<exists>e<nat epochs. epochs < 3 \<or> 5 * ((epochs + 2) div 5) \<le> int e"
      using h assms by (intro exI [of _ "nat (epochs - 1)"]) auto
  qed
  also have "\<dots> \<longleftrightarrow> epochs mod 5 = 1 \<or> epochs mod 5 = 2"
    using assms by presburger
  finally show ?thesis .
qed

subsection \<open>The best-checkpoint policy\<close>

lemma best_before_greater:
  assumes "c < 1000" and "\<And>e. 5 \<le> e \<Longrightarrow> e < k \<Longrightarrow> c < val_loss e"
  shows "c < best_before val_loss k"
  using assms(2)
proof (induction k)
  case 0
  then show ?case using assms(1) by (simp add: best_before_def)
next
  case (Suc k)
  then show ?case by (simp add: best_before_Suc)
qed

lemma best_before_le: "best_before val_loss k \<le> 1000"
  by (induction k) (simp_all add: best_before_def best_before_Suc min.coboundedI2)


lemma run_of_10_completes: "fst (run_training optimizer 10 val_loss) = None"
  unfolding run_training_def
  by (rule epoch_loop_completes) (simp add: adjust_10)

lemma completed_run:
  assumes "fst (run_training optimizer epochs val_loss) = None"
  shows "snd (run_training optimizer epochs val_loss) = state_after val_loss (nat epochs)"
  using assms unfolding run_training_def by (rule epoch_loop_prefix)

lemma strictly_decreasing_nth:
  "strictly_decreasing (map f [0..<n]) \<longleftrightarrow> (\<forall>i j. i < j \<longrightarrow> j < n \<longrightarrow> f j < f i)"
  by (auto simp: strictly_decreasing_def sorted_wrt_iff_nth_less)

text \<open>
  Claim C7, amended. No run writes a checkpoint at an epoch before 5. When the validation
  losses of epochs 0..9 are strictly decreasing and the loss of epoch 9 is below 1000.0,
  the initial \<^verbatim>\<open>best_loss\<close>, the run of 10 epochs completes and its last checkpoint
  write is at epoch 9, the epoch of the least loss.
\<close>

theorem checkpoint_warm_up:
  "(\<forall>e\<in>set (saved (snd (run_training optimizer epochs val_loss))). 5 \<le> e) \<and>
   (strictly_decreasing (map val_loss [0..<10]) \<and> val_loss 9 < 1000 \<longrightarrow>
      fst (run_training optimizer 10 val_loss) = None \<and>
      saved (snd (run_training optimizer 10 val_loss)) \<noteq> [] \<and>
      last (saved (snd (run_training optimizer 10 val_loss))) = 9 \<and>
      best_loss (snd (run_training optimizer 10 val_loss)) = val_loss 9)"
proof (intro conjI impI)
  show "\<forall>e\<in>set (saved (snd (run_training optimizer epochs val_loss))). 5 \<le> e"
    unfolding run_training_def by (rule saved_from_5) (simp add: initial_state_def)
next
  assume h: "strictly_decreasing (map val_loss [0..<10]) \<and> val_loss 9 < 1000"
  then have dec: "\<And>i j. i < j \<Longrightarrow> j < 10 \<Longrightarrow> val_loss j < val_loss i"
    by (simp add: strictly_decreasing_nth)
  have st: "snd (run_training optimizer 10 val_loss) = state_after val_loss 10"
    using completed_run [OF run_of_10_completes] by simp
  have lt: "val_loss 9 < best_before val_loss 9"
    using h dec by (intro best_before_greater) simp_all
  have "[0..<10] = [0..<9] @ [9::nat]"
    using upt_Suc_append [of 0 9] by simp
  then have sv: "saved (state_after val_loss 10)
                 = filter (\<lambda>e. 5 \<le> e \<and> val_loss e < best_before val_loss e) [0..<9] @ [9]"
    using lt by (simp add: state_after_def)
  have "best_before val_loss 10 = min (val_loss 9) (best_before val_loss 9)"
    using best_before_Suc [of val_loss 9] by simp
  then have bl: "best_loss (state_after val_loss 10) = val_loss 9"
    using lt by (simp add: state_after_def)
  show "fst (run_training optimizer 10 val_loss) = None"
    by (rule run_of_10_completes)
  show "saved (snd (run_training optimizer 10 val_loss)) \<noteq> []"
    unfolding st sv by simp
  show "last (saved (snd (run_training optimizer 10 val_loss))) = 9"
    unfolding st sv by simp
  show "best_loss (snd (run_training optimizer 10 val_loss)) = val_loss 9"
    unfolding st bl ..
qed

theorem checkpoint_warm_up_witness:
  "strictly_decreasing (map (\<lambda>e. 10 - real e) [0..<10]) \<and> 10 - real (9::nat) < 1000 \<and>
   fst (run_training ''sgd'' 10 (\<lambda>e. 10 - real e)) = None \<and>
   last (saved (snd (run_training ''sgd'' 10 (\<lambda>e. 10 - real e)))) = 9 \<and>
   best_loss (snd (run_training ''sgd'' 10 (\<lambda>e. 10 - real e))) = 1"
proof -
  have hyp: "strictly_decreasing (map (\<lambda>e. 10 - real e) [0..<10]) \<and> 10 - real (9::nat) < 1000"
    by (simp add: strictly_decreasing_nth)
  from checkpoint_warm_up [of "''sgd''" 10 "\<lambda>e. 10 - real e", THEN conjunct2, rule_format, OF hyp] hyp
  show ?thesis by simp
qed

text \<open>
  As stated, for every strictly decreasing sequence, the claim fails: with the losses
  2009, 2008, ..., 2000 no epoch is below the initial \<^verbatim>\<open>best_loss\<close> and nothing is
  written.
\<close>

theorem checkpoint_warm_up_counterexample:
  "strictly_decreasing (map (\<lambda>e. 2009 - real e) [0..<10]) \<and>
   fst (run_training ''adam'' 10 (\<lambda>e. 2009 - real e)) = None \<and>
   saved (snd (run_training ''adam'' 10 (\<lambda>e. 2009 - real e))) = []"
proof -
  let ?vl = "\<lambda>e::nat. 2009 - real e"
  have "snd (run_training ''adam'' 10 ?vl) = state_after ?vl 10"
    using completed_run [OF run_of_10_completes] by simp
  moreover have "\<not> (5 \<le> e \<and> ?vl e < best_before ?vl e)" if "e \<in> set [0..<10]" for e
  proof -
    have "best_before ?vl e \<le> 1000"
      by (rule best_before_le)
    moreover have "1000 < ?vl e"
      using that by simp
    ultimately show ?thesis by simp
  qed
  then have "saved (state_after ?vl 10) = []"
    unfolding state_after_def by (simp del: upt_Suc set_upt)
  ultimately show ?thesis
    using run_of_10_completes [of "''adam''" ?vl] by (simp add: strictly_decreasing_nth)
qed




subsection \<open>The epoch functions\<close>

lemma train_acc_result:
  assumes "train_acc T aug outputs labels labels_a labels_b l n acc = Inr r"
  shows "r = (if cuda_is_available T
              then acc + acc_value (batch_acc T aug outputs labels labels_a labels_b l) * real n
              else acc)"
  using assms
  by (auto simp: train_acc_def times_len_def acc_value_def split: sum.splits option.splits if_splits)

lemma val_acc_result:
  assumes "val_acc T outputs labels n acc = Inr r"
  shows "r = (if cuda_is_available T
              then acc + acc_value (eval_metrics ''acc'' (argmax T outputs) (as_int T labels) None None)
                         * real n
              else acc)"
  using assms
  by (auto simp: val_acc_def times_len_def acc_value_def Let_def
           split: sum.splits option.splits if_splits)

lemma train_step_result:
  assumes "train_step T output_std crit aug b st = Inr st'"
  shows "fst st' = fst st @ [backward_loss output_std (step_loss_dis T crit aug b)
                                (step_loss_sev T crit aug b)]"
    and "loss (snd st') = loss (snd st)
           + batch_loss output_std (step_loss_dis T crit aug b) (step_loss_sev T crit aug b)
             * real (n_images b)"
    and "dis_acc (snd st') =
           (if cuda_is_available T
            then dis_acc (snd st)
                 + acc_value (batch_acc T aug (outputs_dis b) (labels_dis b) (labels_dis_a b)
                                (labels_dis_b b) (lam b)) * real (n_images b)
            else dis_acc (snd st))"
    and "sev_acc (snd st') =
           (if cuda_is_available T
            then sev_acc (snd st)
                 + acc_value (batch_acc T aug (outputs_sev b) (labels_sev b) (labels_sev_a b)
                                (labels_sev_b b) (lam b)) * real (n_images b)
            else sev_acc (snd st))"
proof -
  from assms obtain d s where
    d: "train_acc T aug (outputs_dis b) (labels_dis b) (labels_dis_a b) (labels_dis_b b) (lam b)
          (n_images b) (dis_acc (snd st)) = Inr d"
    and s: "train_acc T aug (outputs_sev b) (labels_sev b) (labels_sev_a b) (labels_sev_b b) (lam b)
          (n_images b) (sev_acc (snd st)) = Inr s"
    and st': "st' = (fst st @ [backward_loss output_std (step_loss_dis T crit aug b)
                                 (step_loss_sev T crit aug b)],
                     (snd st)\<lparr>loss := loss (snd st)
                        + batch_loss output_std (step_loss_dis T crit aug b)
                            (step_loss_sev T crit aug b) * real (n_images b),
                       dis_acc := d, sev_acc := s\<rparr>)"
    by (auto simp: train_step_def Let_def split: sum.splits)
  show "fst st' = fst st @ [backward_loss output_std (step_loss_dis T crit aug b)
                                (step_loss_sev T crit aug b)]"
    by (simp add: st')
  show "loss (snd st') = loss (snd st)
           + batch_loss output_std (step_loss_dis T crit aug b) (step_loss_sev T crit aug b)
             * real (n_images b)"
    by (simp add: st')
  show "dis_acc (snd st') =
           (if cuda_is_available T
            then dis_acc (snd st)
                 + acc_value (batch_acc T aug (outputs_dis b) (labels_dis b) (labels_dis_a b)
                                (labels_dis_b b) (lam b)) * real (n_images b)
            else dis_acc (snd st))"
    using train_acc_result [OF d] by (simp add: st')
  show "sev_acc (snd st') =
           (if cuda_is_available T
            then sev_acc (snd st)
                 + acc_value (batch_acc T aug (outputs_sev b) (labels_sev b) (labels_sev_a b)
                                (labels_sev_b b) (lam b)) * real (n_images b)
            else sev_acc (snd st))"
    using train_acc_result [OF s] by (simp add: st')
qed

lemma train_loop_result:
  assumes "for_each (train_step T output_std crit aug) bs st = Inr st'"
  shows "fst st' = fst st @ map (\<lambda>b. backward_loss output_std (step_loss_dis T crit aug b)
                                    (step_loss_sev T crit aug b)) bs"
    and "loss (snd st') = loss (snd st)
           + (\<Sum>b\<leftarrow>bs. batch_loss output_std (step_loss_dis T crit aug b)
                       (step_loss_sev T crit aug b) * real (n_images b))"
    and "dis_acc (snd st') =
           (if cuda_is_available T
            then dis_acc (snd st)
                 + (\<Sum>b\<leftarrow>bs. acc_value (batch_acc T aug (outputs_dis b) (labels_dis b)
                              (labels_dis_a b) (labels_dis_b b) (lam b)) * real (n_images b))
            else dis_acc (snd st))"
    and "sev_acc (snd st') =
           (if cuda_is_available T
            then sev_acc (snd st)
                 + (\<Sum>b\<leftarrow>bs. acc_value (batch_acc T aug (outputs_sev b) (labels_sev b)
                              (labels_sev_a b) (labels_sev_b b) (lam b)) * real (n_images b))
            else sev_acc (snd st))"
  using assms
proof (induction bs arbitrary: st)
  case Nil
  {
    case 1 then show ?case by simp
  next
    case 2 then show ?case by simp
  next
    case 3 then show ?case by simp
  next
    case 4 then show ?case by simp
  }
next
  case (Cons b bs)
  {
    case 1
    then obtain st1 where s1: "train_step T output_std crit aug b st = Inr st1"
      and rest: "for_each (train_step T output_std crit aug) bs st1 = Inr st'"
      by (auto split: sum.splits)
    show ?case
      using Cons.IH(1) [OF rest] train_step_result(1) [OF s1] by simp
  next
    case 2
    then obtain st1 where s1: "train_step T output_std crit aug b st = Inr st1"
      and rest: "for_each (train_step T output_std crit aug) bs st1 = Inr st'"
      by (auto split: sum.splits)
    show ?case
      using Cons.IH(2) [OF rest] train_step_result(2) [OF s1] by simp
  next
    case 3
    then obtain st1 where s1: "train_step T output_std crit aug b st = Inr st1"
      and rest: "for_each (train_step T output_std crit aug) bs st1 = Inr st'"
      by (auto split: sum.splits)
    show ?case
      using Cons.IH(3) [OF rest] train_step_result(3) [OF s1] by simp
  next
    case 4
    then obtain st1 where s1: "train_step T output_std crit aug b st = Inr st1"
      and rest: "for_each (train_step T output_std crit aug) bs st1 = Inr st'"
      by (auto split: sum.splits)
    show ?case
      using Cons.IH(4) [OF rest] train_step_result(4) [OF s1] by simp
  }
qed

lemma val_step_result:
  assumes "val_step T output_std crit b m = Inr m'"
  shows "loss m' = loss m
           + batch_loss output_std (criterion_call T crit (outputs_dis b) (labels_dis b))
               (criterion_call T crit (outputs_sev b) (labels_sev b)) * real (n_images b)"
    and "dis_acc m' =
           (if cuda_is_available T
            then dis_acc m
                 + acc_value (eval_metrics ''acc'' (argmax T (outputs_dis b))
                                (as_int T (labels_dis b)) None None) * real (n_images b)
            else dis_acc m)"
    and "sev_acc m' =
           (if cuda_is_available T
            then sev_acc m
                 + acc_value (eval_metrics ''acc'' (argmax T (outputs_sev b))
                                (as_int T (labels_sev b)) None None) * real (n_images b)
            else sev_acc m)"
proof -
  from assms obtain d s where
    d: "val_acc T (outputs_dis b) (labels_dis b) (n_images b) (dis_acc m) = Inr d"
    and s: "val_acc T (outputs_sev b) (labels_sev b) (n_images b) (sev_acc m) = Inr s"
    and m': "m' = m\<lparr>loss := loss m
                     + batch_loss output_std (criterion_call T crit (outputs_dis b) (labels_dis b))
                         (criterion_call T crit (outputs_sev b) (labels_sev b)) * real (n_images b),
                   dis_acc := d, sev_acc := s\<rparr>"
    by (auto simp: val_step_def Let_def split: sum.splits)
  show "loss m' = loss m
           + batch_loss output_std (criterion_call T crit (outputs_dis b) (labels_dis b))
               (criterion_call T crit (outputs_sev b) (labels_sev b)) * real (n_images b)"
    by (simp add: m')
  show "dis_acc m' =
           (if cuda_is_available T
            then dis_acc m
                 + acc_value (eval_metrics ''acc'' (argmax T (outputs_dis b))
                                (as_int T (labels_dis b)) None None) * real (n_images b)
            else dis_acc m)"
    using val_acc_result [OF d] by (simp add: m')
  show "sev_acc m' =
           (if cuda_is_available T
            then sev_acc m
                 + acc_value (eval_metrics ''acc'' (argmax T (outputs_sev b))
                                (as_int T (labels_sev b)) None None) * real (n_images b)
            else sev_acc m)"
    using val_acc_result [OF s] by (simp add: m')
qed

lemma val_loop_result:
  assumes "for_each (val_step T output_std crit) bs m = Inr m'"
  shows "loss m' = loss m
           + (\<Sum>b\<leftarrow>bs. batch_loss output_std (criterion_call T crit (outputs_dis b) (labels_dis b))
                       (criterion_call T crit (outputs_sev b) (labels_sev b)) * real (n_images b))"
    and "dis_acc m' =
           (if cuda_is_available T
            then dis_acc m
                 + (\<Sum>b\<leftarrow>bs. acc_value (eval_metrics ''acc'' (argmax T (outputs_dis b))
                              (as_int T (labels_dis b)) None None) * real (n_images b))
            else dis_acc m)"
    and "sev_acc m' =
           (if cuda_is_available T
            then sev_acc m
                 + (\<Sum>b\<leftarrow>bs. acc_value (eval_metrics ''acc'' (argmax T (outputs_sev b))
                              (as_int T (labels_sev b)) None None) * real (n_images b))
            else sev_acc m)"
  using assms
proof (induction bs arbitrary: m)
  case Nil
  {
    case 1 then show ?case by simp
  next
    case 2 then show ?case by simp
  next
    case 3 then show ?case by simp
  }
next
  case (Cons b bs)
  {
    case 1
    then obtain m1 where s1: "val_step T output_std crit b m = Inr m1"
      and rest: "for_each (val_step T output_std crit) bs m1 = Inr m'"
      by (auto split: sum.splits)
    show ?case
      using Cons.IH(1) [OF rest] val_step_result(1) [OF s1] by simp
  next
    case 2
    then obtain m1 where s1: "val_step T output_std crit b m = Inr m1"
      and rest: "for_each (val_step T output_std crit) bs m1 = Inr m'"
      by (auto split: sum.splits)
    show ?case
      using Cons.IH(2) [OF rest] val_step_result(2) [OF s1] by simp
  next
    case 3
    then obtain m1 where s1: "val_step T output_std crit b m = Inr m1"
      and rest: "for_each (val_step T output_std crit) bs m1 = Inr m'"
      by (auto split: sum.splits)
    show ?case
      using Cons.IH(3) [OF rest] val_step_result(3) [OF s1] by simp
  }
qed

lemma epoch_average_result:
  assumes "epoch_average pf n m = Inr m'"
  shows "n \<noteq> 0" and "loss m' = loss m / real n"
    and "dis_acc m' = 100 * dis_acc m / real n" and "sev_acc m' = 100 * sev_acc m / real n"
  using assms by (auto simp: epoch_average_def split: if_splits)

lemma train_result:
  assumes "train T output_std crit aug batches n = Inr (bw, m)"
  shows "n \<noteq> 0"
    and "bw = map (\<lambda>b. backward_loss output_std (step_loss_dis T crit aug b)
                        (step_loss_sev T crit aug b)) batches"
    and "loss m = (\<Sum>b\<leftarrow>batches. batch_loss output_std (step_loss_dis T crit aug b)
                       (step_loss_sev T crit aug b) * real (n_images b)) / real n"
    and "dis_acc m =
           (if cuda_is_available T
            then 100 * (\<Sum>b\<leftarrow>batches. acc_value (batch_acc T aug (outputs_dis b) (labels_dis b)
                              (labels_dis_a b) (labels_dis_b b) (lam b)) * real (n_images b)) / real n
            else 0)"
    and "sev_acc m =
           (if cuda_is_available T
            then 100 * (\<Sum>b\<leftarrow>batches. acc_value (batch_acc T aug (outputs_sev b) (labels_sev b)
                              (labels_sev_a b) (labels_sev_b b) (lam b)) * real (n_images b)) / real n
            else 0)"
proof -
  from assms obtain st where
    loop: "for_each (train_step T output_std crit aug) batches ([], zero_metrics) = Inr st"
    and avg: "epoch_average (batches = [] \<or> \<not> cuda_is_available T) n (snd st) = Inr m"
    and bw: "bw = fst st"
    by (auto simp: train_def split: sum.splits)
  note l = train_loop_result [OF loop]
  note a = epoch_average_result [OF avg]
  show "n \<noteq> 0" by (rule a(1))
  show "bw = map (\<lambda>b. backward_loss output_std (step_loss_dis T crit aug b)
                        (step_loss_sev T crit aug b)) batches"
    using l(1) bw by simp
  show "loss m = (\<Sum>b\<leftarrow>batches. batch_loss output_std (step_loss_dis T crit aug b)
                       (step_loss_sev T crit aug b) * real (n_images b)) / real n"
    using l(2) a(2) by (simp add: zero_metrics_def)
  show "dis_acc m =
           (if cuda_is_available T
            then 100 * (\<Sum>b\<leftarrow>batches. acc_value (batch_acc T aug (outputs_dis b) (labels_dis b)
                              (labels_dis_a b) (labels_dis_b b) (lam b)) * real (n_images b)) / real n
            else 0)"
    using l(3) a(3) by (simp add: zero_metrics_def)
  show "sev_acc m =
           (if cuda_is_available T
            then 100 * (\<Sum>b\<leftarrow>batches. acc_value (batch_acc T aug (outputs_sev b) (labels_sev b)
                              (labels_sev_a b) (labels_sev_b b) (lam b)) * real (n_images b)) / real n
            else 0)"
    using l(4) a(4) by (simp add: zero_metrics_def)
qed

lemma validation_result:
  assumes "validation T output_std crit batches n = Inr m"
  shows "n \<noteq> 0"
    and "loss m = (\<Sum>b\<leftarrow>batches. batch_loss output_std
                       (criterion_call T crit (outputs_dis b) (labels_dis b))
                       (criterion_call T crit (outputs_sev b) (labels_sev b)) * real (n_images b))
                  / real n"
    and "dis_acc m =
           (if cuda_is_available T
            then 100 * (\<Sum>b\<leftarrow>batches. acc_value (eval_metrics ''acc'' (argmax T (outputs_dis b))
                              (as_int T (labels_dis b)) None None) * real (n_images b)) / real n
            else 0)"
    and "sev_acc m =
           (if cuda_is_available T
            then 100 * (\<Sum>b\<leftarrow>batches. acc_value (eval_metrics ''acc'' (argmax T (outputs_sev b))
                              (as_int T (labels_sev b)) None None) * real (n_images b)) / real n
            else 0)"
proof -
  from assms obtain m0 where
    loop: "for_each (val_step T output_std crit) batches zero_metrics = Inr m0"
    and avg: "epoch_average (batches = [] \<or> \<not> cuda_is_available T) n m0 = Inr m"
    by (auto simp: validation_def split: sum.splits)
  note l = val_loop_result [OF loop]
  note a = epoch_average_result [OF avg]
  show "n \<noteq> 0" by (rule a(1))
  show "loss m = (\<Sum>b\<leftarrow>batches. batch_loss output_std
                       (criterion_call T crit (outputs_dis b) (labels_dis b))
                       (criterion_call T crit (outputs_sev b) (labels_sev b)) * real (n_images b))
                  / real n"
    using l(1) a(2) by (simp add: zero_metrics_def)
  show "dis_acc m =
           (if cuda_is_available T
            then 100 * (\<Sum>b\<leftarrow>batches. acc_value (eval_metrics ''acc'' (argmax T (outputs_dis b))
                              (as_int T (labels_dis b)) None None) * real (n_images b)) / real n
            else 0)"
    using l(2) a(3) by (simp add: zero_metrics_def)
  show "sev_acc m =
           (if cuda_is_available T
            then 100 * (\<Sum>b\<leftarrow>batches. acc_value (eval_metrics ''acc'' (argmax T (outputs_sev b))
                              (as_int T (labels_sev b)) None None) * real (n_images b)) / real n
            else 0)"
    using l(3) a(4) by (simp add: zero_metrics_def)
qed

lemma equal_batches_mean:
  fixes f :: "'b \<Rightarrow> real"
  assumes "\<forall>b\<in>set bs. size_of b = k" and "0 < k"
  shows "(\<Sum>b\<leftarrow>bs. f b * real (size_of b)) / real (k * length bs)
         = (\<Sum>b\<leftarrow>bs. f b) / real (length bs)"
proof -
  have "(\<Sum>b\<leftarrow>bs. f b * real (size_of b)) = (\<Sum>b\<leftarrow>bs. f b) * real k"
    using assms(1) by (induction bs) (simp_all add: distrib_right)
  then show ?thesis
    using assms(2) by simp
qed

lemma train_equal_batches:
  assumes run: "train T output_std crit aug batches n = Inr (bw, m)"
    and sizes: "\<forall>b\<in>set batches. n_images b = k" and total: "n = k * length batches"
  shows "loss m = (\<Sum>b\<leftarrow>batches. batch_loss output_std (step_loss_dis T crit aug b)
                       (step_loss_sev T crit aug b)) / real (length batches)"
    and "cuda_is_available T \<Longrightarrow>
         dis_acc m = 100 * ((\<Sum>b\<leftarrow>batches. acc_value (batch_acc T aug (outputs_dis b)
                              (labels_dis b) (labels_dis_a b) (labels_dis_b b) (lam b)))
                            / real (length batches))"
proof -
  have k: "0 < k"
    using train_result(1) [OF run] total by (cases k) simp_all
  show "loss m = (\<Sum>b\<leftarrow>batches. batch_loss output_std (step_loss_dis T crit aug b)
                       (step_loss_sev T crit aug b)) / real (length batches)"
    using train_result(3) [OF run] equal_batches_mean [OF sizes k] total by simp
  show "dis_acc m = 100 * ((\<Sum>b\<leftarrow>batches. acc_value (batch_acc T aug (outputs_dis b)
                              (labels_dis b) (labels_dis_a b) (labels_dis_b b) (lam b)))
                            / real (length batches))"
    if "cuda_is_available T"
    using train_result(4) [OF run] that total
      equal_batches_mean [OF sizes k, of "\<lambda>b. acc_value (batch_acc T aug (outputs_dis b)
                              (labels_dis b) (labels_dis_a b) (labels_dis_b b) (lam b))"]
    by simp
qed

lemmas toy_defs =
  train_def train_step_def step_loss_dis_def step_loss_sev_def head_loss_def
  backward_loss_def batch_loss_def train_acc_def batch_acc_def times_len_def
  eval_metrics_def accuracy_score_def epoch_average_def zero_metrics_def
  toy_torch_def toy_batch_def validation_def val_step_def val_acc_def
  criterion_val_def mixup_criterion_def acc_value_def

subsection \<open>Loss routing and criterion\<close>

text \<open>
  Claim C4, amended. The scalar on which \<^verbatim>\<open>backward()\<close> is called is
  \<open>loss_dis + loss_sev\<close> under \<^verbatim>\<open>'multitask'\<close>, \<open>loss_dis\<close> under \<^verbatim>\<open>'disease'\<close> and
  \<open>loss_sev\<close> under \<^verbatim>\<open>'severity'\<close>, at every step of \<^verbatim>\<open>train\<close>. The loss that is
  logged follows the same switch (the mean of the two under \<^verbatim>\<open>'multitask'\<close>): in a
  single-head mode the other head's loss is computed, but it enters neither the backward
  pass nor the logged loss.
\<close>

theorem gradient_routing:
  "backward_loss ''multitask'' loss_dis loss_sev = loss_dis + loss_sev \<and>
   backward_loss ''disease'' loss_dis loss_sev = loss_dis \<and>
   backward_loss ''severity'' loss_dis loss_sev = loss_sev \<and>
   batch_loss ''multitask'' loss_dis loss_sev = (loss_dis + loss_sev) / 2 \<and>
   batch_loss ''disease'' loss_dis loss_sev = loss_dis \<and>
   batch_loss ''severity'' loss_dis loss_sev = loss_sev \<and>
   (train T output_std crit aug batches n = Inr (bw, m) \<longrightarrow>
      bw = map (\<lambda>b. backward_loss output_std (step_loss_dis T crit aug b)
                     (step_loss_sev T crit aug b)) batches \<and>
      loss m = (\<Sum>b\<leftarrow>batches. batch_loss output_std (step_loss_dis T crit aug b)
                     (step_loss_sev T crit aug b) * real (n_images b)) / real n)"
proof (intro conjI impI)
  assume run: "train T output_std crit aug batches n = Inr (bw, m)"
  show "bw = map (\<lambda>b. backward_loss output_std (step_loss_dis T crit aug b)
                     (step_loss_sev T crit aug b)) batches"
    by (rule train_result(2) [OF run])
  show "loss m = (\<Sum>b\<leftarrow>batches. batch_loss output_std (step_loss_dis T crit aug b)
                     (step_loss_sev T crit aug b) * real (n_images b)) / real n"
    by (rule train_result(3) [OF run])
qed (simp_all add: backward_loss_def batch_loss_def)

theorem gradient_routing_witness:
  "train (toy_torch True) ''disease'' CrossEntropyLoss None [toy_batch 3 5] 1
     = Inr ([3], \<lparr>loss = 3, dis_acc = 100, sev_acc = 100\<rparr>) \<and>
   [3] = map (\<lambda>b. backward_loss ''disease''
                    (step_loss_dis (toy_torch True) CrossEntropyLoss None b)
                    (step_loss_sev (toy_torch True) CrossEntropyLoss None b)) [toy_batch 3 5] \<and>
   step_loss_sev (toy_torch True) CrossEntropyLoss None (toy_batch 3 5) = 5"
proof -
  have run: "train (toy_torch True) ''disease'' CrossEntropyLoss None [toy_batch 3 5] 1
             = Inr ([3], \<lparr>loss = 3, dis_acc = 100, sev_acc = 100\<rparr>)"
    by (simp add: toy_defs)
  have "step_loss_sev (toy_torch True) CrossEntropyLoss None (toy_batch 3 5) = 5"
    by (simp add: toy_defs)
  then show ?thesis
    using run gradient_routing [of 0 0 "toy_torch True" "''disease''" CrossEntropyLoss None
        "[toy_batch 3 5]" 1 "[3]" "\<lparr>loss = 3, dis_acc = 100, sev_acc = 100\<rparr>",
        THEN conjunct2, THEN conjunct2, THEN conjunct2, THEN conjunct2, THEN conjunct2,
        THEN conjunct2, rule_format, OF run]
    by blast
qed

text \<open>
  As stated, the claim has the non-selected head's loss logged. Under \<^verbatim>\<open>'disease'\<close> two
  steps whose severity losses are 5 and 7 return the same scalars and the same metrics, in
  which neither number occurs.
\<close>

theorem gradient_routing_counterexample:
  "step_loss_sev (toy_torch True) CrossEntropyLoss None (toy_batch 3 5) = 5 \<and>
   step_loss_sev (toy_torch True) CrossEntropyLoss None (toy_batch 3 7) = 7 \<and>
   train (toy_torch True) ''disease'' CrossEntropyLoss None [toy_batch 3 5] 1
     = Inr ([3], \<lparr>loss = 3, dis_acc = 100, sev_acc = 100\<rparr>) \<and>
   train (toy_torch True) ''disease'' CrossEntropyLoss None [toy_batch 3 7] 1
     = Inr ([3], \<lparr>loss = 3, dis_acc = 100, sev_acc = 100\<rparr>)"
  by (simp add: toy_defs)



subsection \<open>Epoch metrics and the accelerator guard\<close>

text \<open>
  Claim C6. The reported loss is the size-weighted sum over the dataset size in every
  epoch, and so are the accuracies, times 100, when an accelerator is available
  (\<open>train_result\<close>, \<open>validation_result\<close>, \<open>train_equal_batches\<close>). Without one the
  claim fails: two batches of one image each, both predicted right, have the size-weighted
  accuracy 100, and \<^verbatim>\<open>train\<close> reports 0.
\<close>

theorem accuracy_not_accumulated_without_accelerator:
  "train (toy_torch False) ''disease'' CrossEntropyLoss None [toy_batch 3 5, toy_batch 1 2] 2
     = Inr ([3, 1], \<lparr>loss = 2, dis_acc = 0, sev_acc = 0\<rparr>) \<and>
   batch_acc (toy_torch False) None (outputs_dis (toy_batch 3 5)) (labels_dis (toy_batch 3 5))
       (labels_dis_a (toy_batch 3 5)) (labels_dis_b (toy_batch 3 5)) (lam (toy_batch 3 5))
     = Inr (Some 1) \<and>
   batch_acc (toy_torch False) None (outputs_dis (toy_batch 1 2)) (labels_dis (toy_batch 1 2))
       (labels_dis_a (toy_batch 1 2)) (labels_dis_b (toy_batch 1 2)) (lam (toy_batch 1 2))
     = Inr (Some 1) \<and>
   100 * (1 * real (n_images (toy_batch 3 5)) + 1 * real (n_images (toy_batch 1 2))) / 2 = (100::real)"
  by (simp add: toy_defs)

text \<open>
  Claim C10. The same batches, outputs and labels give accuracy 0 without an accelerator
  and the true figure with one, in \<^verbatim>\<open>validation\<close> and in \<^verbatim>\<open>train\<close>.
\<close>

theorem accuracy_depends_on_accelerator:
  "validation (toy_torch False) ''multitask'' criterion_val [toy_batch 3 5] 1
     = Inr \<lparr>loss = 4, dis_acc = 0, sev_acc = 0\<rparr> \<and>
   validation (toy_torch True) ''multitask'' criterion_val [toy_batch 3 5] 1
     = Inr \<lparr>loss = 4, dis_acc = 100, sev_acc = 100\<rparr> \<and>
   train (toy_torch False) ''multitask'' CrossEntropyLoss (Some ''mixup'') [toy_batch 3 5] 1
     = Inr ([8], \<lparr>loss = 4, dis_acc = 0, sev_acc = 0\<rparr>) \<and>
   train (toy_torch True) ''multitask'' CrossEntropyLoss (Some ''mixup'') [toy_batch 3 5] 1
     = Inr ([8], \<lparr>loss = 4, dis_acc = 25, sev_acc = 25\<rparr>)"
  by (simp add: toy_defs)

end
